theory Spec2Isabelle
  imports Main "HOL-Library.AList"
begin

text \<open>
  The repository composition and resolution engine of the data-access layer: the
  Repository node with its two traversal primitives (\<^verbatim>\<open>doParents\<close>,
  \<^verbatim>\<open>doSelfAndPeers\<close>) and \<^verbatim>\<open>map\<close>, the configuration binder
  \<^verbatim>\<open>CfgHelper.getFuncArgs\<close>, the materializer \<^verbatim>\<open>Repository.makeFromCfg\<close>,
  the repository descriptor \<^verbatim>\<open>RepositoryCfg\<close>, and \<^verbatim>\<open>read\<close> and
  \<^verbatim>\<open>write\<close> of the storage \<^verbatim>\<open>PosixStorage\<close>.  The definitions come first,
  each next to the statement of the source it renders; the properties follow.
\<close>

section \<open>Repository nodes and the results of an operation\<close>

text \<open>
  A value returned by an operation that is applied to a repository
  (\<^verbatim>\<open>func(repo, *args, **kwargs)\<close>).  Python's \<^verbatim>\<open>None\<close> is the
  \<open>None\<close> of the surrounding option type.  \<open>Seq xs\<close> is a value that
  \<^verbatim>\<open>list.extend\<close> accepts (an iterable, with its elements in iteration order);
  \<open>Item x\<close> is a value on which \<^verbatim>\<open>list.extend\<close> raises TypeError.
\<close>

datatype 'v pyval = Item 'v | Seq "'v pyval list"

text \<open>
  \<^verbatim>\<open>class Repository\<close>: the fields set by \<^verbatim>\<open>__init__\<close>, in the order of its
  parameters (\<^verbatim>\<open>_mapper\<close>, \<^verbatim>\<open>_access\<close>, \<^verbatim>\<open>_parents\<close>, \<^verbatim>\<open>_peers\<close>,
  \<^verbatim>\<open>_id\<close>, \<^verbatim>\<open>_parentJoin\<close>).  The mapper and the access object are external
  collaborators and stay abstract.
\<close>

datatype ('m, 'a) repo =
  Repository (mapper: "'m option") (access: "'a option")
    (parents: "('m, 'a) repo list") (peers: "('m, 'a) repo list")
    (ident: "string option") (parentJoin: string)

subsection \<open>doSelfAndPeers\<close>

text \<open>
  \<^verbatim>\<open>try: ret.extend(res)  except TypeError: ret.append(res)\<close>
\<close>

fun extend_or_append :: "'v pyval list \<Rightarrow> 'v pyval \<Rightarrow> 'v pyval list" where
  "extend_or_append ret (Seq xs) = ret @ xs"
| "extend_or_append ret (Item x) = ret @ [Item x]"

text \<open>
  The loop \<^verbatim>\<open>for peer in self._peers\<close>.  The state of the loop is the accumulator
  \<open>ret\<close> and the log \<open>calls\<close> of the repositories the operation has been
  evaluated on so far, oldest first.
\<close>

fun doSelfAndPeers_loop ::
  "(('m, 'a) repo \<Rightarrow> 'v pyval option) \<Rightarrow> ('m, 'a) repo list \<Rightarrow> 'v pyval list \<Rightarrow>
     ('m, 'a) repo list \<Rightarrow> ('m, 'a) repo list \<times> 'v pyval list" where
  "doSelfAndPeers_loop func [] ret calls = (calls, ret)"
| "doSelfAndPeers_loop func (peer # rest) ret calls =
     (case func peer of
        None \<Rightarrow> doSelfAndPeers_loop func rest ret (calls @ [peer])
      | Some res \<Rightarrow> doSelfAndPeers_loop func rest (extend_or_append ret res) (calls @ [peer]))"

definition doSelfAndPeers ::
  "(('m, 'a) repo \<Rightarrow> 'v pyval option) \<Rightarrow> ('m, 'a) repo \<Rightarrow>
     ('m, 'a) repo list \<times> 'v pyval option" where
  "doSelfAndPeers func self =
     (let ret0 = (case func self of None \<Rightarrow> [] | Some res \<Rightarrow> extend_or_append [] res);
          (calls, ret) = doSelfAndPeers_loop func (peers self) ret0 [self]
      in (calls, if length ret = 0 then None else Some (Seq ret)))"

subsection \<open>doParents\<close>

text \<open>
  \<open>doParents func self\<close> returns the log of the repositories the operation was
  evaluated on, and the value returned.  \<open>doParents_loop\<close> is the loop
  \<^verbatim>\<open>for parent in self._parents\<close> of a repository whose join mode is \<open>join\<close>,
  with the parents still to visit, the accumulator \<open>ret\<close> and the log so far.
  The recursive call \<^verbatim>\<open>parent.doParents(func, ...)\<close> runs with the join mode of
  \<open>parent\<close>.  The comparison \<^verbatim>\<open>self._parentJoin is 'left'\<close> is read as equality
  of strings.
\<close>

fun doParents ::
  "(('m, 'a) repo \<Rightarrow> 'v pyval option) \<Rightarrow> ('m, 'a) repo \<Rightarrow>
     ('m, 'a) repo list \<times> 'v pyval option"
and doParents_loop ::
  "(('m, 'a) repo \<Rightarrow> 'v pyval option) \<Rightarrow> string \<Rightarrow> ('m, 'a) repo list \<Rightarrow> 'v pyval list \<Rightarrow>
     ('m, 'a) repo list \<Rightarrow> ('m, 'a) repo list \<times> 'v pyval option" where
  "doParents func (Repository m a ps prs i join) = doParents_loop func join ps [] []"
| "doParents_loop func join [] ret calls =
     (calls, if length ret = 0 then None else Some (Seq ret))"
| "doParents_loop func join (parent # rest) ret calls =
     (case func parent of
        Some res \<Rightarrow>
          if join = ''left'' then (calls @ [parent], Some res)
          else doParents_loop func join rest (ret @ [res]) (calls @ [parent])
      | None \<Rightarrow>
          (case doParents func parent of
             (pcalls, Some res) \<Rightarrow>
               if join = ''left'' then (calls @ [parent] @ pcalls, Some res)
               else doParents_loop func join rest (ret @ [res]) (calls @ [parent] @ pcalls)
           | (pcalls, None) \<Rightarrow>
               doParents_loop func join rest ret (calls @ [parent] @ pcalls)))"

subsection \<open>The search order and the join modes, as the specification words them\<close>

text \<open>
  The candidates of a parent search in depth-first declared order: each parent, then
  that parent's ancestors, before the next sibling parent.
\<close>

fun ancestors :: "('m, 'a) repo \<Rightarrow> ('m, 'a) repo list" where
  "ancestors (Repository m a ps prs i join) = concat (map (\<lambda>p. p # ancestors p) ps)"

text \<open>Every repository of the graph searched from \<open>self\<close> has join mode \<^verbatim>\<open>'left'\<close>.\<close>

fun all_left :: "('m, 'a) repo \<Rightarrow> bool" where
  "all_left (Repository m a ps prs i join) = (join = ''left'' \<and> (\<forall>p \<in> set ps. all_left p))"

text \<open>The candidates up to and including the first one that satisfies \<open>P\<close>.\<close>

fun upto_first :: "('x \<Rightarrow> bool) \<Rightarrow> 'x list \<Rightarrow> 'x list" where
  "upto_first P [] = []"
| "upto_first P (x # xs) = (if P x then [x] else x # upto_first P xs)"

text \<open>The candidates on which an operation yields a non-null result.\<close>

definition yielding :: "('x \<Rightarrow> 'y option) \<Rightarrow> 'x \<Rightarrow> bool" where
  "yielding f = (\<lambda>x. f x \<noteq> None)"

text \<open>The first non-null result of \<open>f\<close> along a list of candidates.\<close>

fun first_result :: "('x \<Rightarrow> 'y option) \<Rightarrow> 'x list \<Rightarrow> 'y option" where
  "first_result f [] = None"
| "first_result f (x # xs) = (case f x of Some y \<Rightarrow> Some y | None \<Rightarrow> first_result f xs)"

text \<open>
  What one top-level parent branch yields (steps 1 and 2 of the search): the result of
  the operation on the parent or, when that is null, of the search of the parent's own
  parents; and the repositories the operation is evaluated on in that branch.
\<close>

definition branch_result ::
  "(('m, 'a) repo \<Rightarrow> 'v pyval option) \<Rightarrow> ('m, 'a) repo \<Rightarrow> 'v pyval option" where
  "branch_result func p = (case func p of Some res \<Rightarrow> Some res | None \<Rightarrow> snd (doParents func p))"

definition branch_calls ::
  "(('m, 'a) repo \<Rightarrow> 'v pyval option) \<Rightarrow> ('m, 'a) repo \<Rightarrow> ('m, 'a) repo list" where
  "branch_calls func p = p # (case func p of Some res \<Rightarrow> [] | None \<Rightarrow> fst (doParents func p))"

text \<open>
  What one result adds to the accumulator of the fan-out: nothing when null, its
  elements when it behaves as a sequence, itself otherwise.
\<close>

fun contribution :: "'v pyval option \<Rightarrow> 'v pyval list" where
  "contribution None = []"
| "contribution (Some (Seq xs)) = xs"
| "contribution (Some (Item x)) = [Item x]"

subsection \<open>Example graphs\<close>

text \<open>
  Repositories without mapper and access, named by their id.  \<open>repoD\<close> is a left-join
  repository whose only parent \<open>repoP\<close> is an outer-join repository with the parents
  \<open>repoA\<close> and \<open>repoB\<close>; \<open>repoL\<close> is the same graph with \<open>repoQ\<close>, a left-join
  copy of \<open>repoP\<close>.
\<close>

definition leaf :: "string \<Rightarrow> (unit, unit) repo" where
  "leaf name = Repository None None [] [] (Some name) ''left''"

definition repoA :: "(unit, unit) repo" where
  "repoA = leaf ''A''"

definition repoB :: "(unit, unit) repo" where
  "repoB = leaf ''B''"

definition repoP :: "(unit, unit) repo" where
  "repoP = Repository None None [repoA, repoB] [] (Some ''P'') ''outer''"

definition repoD :: "(unit, unit) repo" where
  "repoD = Repository None None [repoP] [] (Some ''D'') ''left''"

definition repoQ :: "(unit, unit) repo" where
  "repoQ = Repository None None [repoA, repoB] [] (Some ''Q'') ''left''"

definition repoL :: "(unit, unit) repo" where
  "repoL = Repository None None [repoQ, repoB] [] (Some ''L'') ''left''"

text \<open>An operation that yields on the repository with the given id only.\<close>

definition yields_at :: "string \<Rightarrow> (unit, unit) repo \<Rightarrow> nat pyval option" where
  "yields_at name r = (if ident r = Some name then Some (Item 7) else None)"

text \<open>An operation that yields the length of the id, on every leaf.\<close>

definition yields_leaf :: "(unit, unit) repo \<Rightarrow> nat pyval option" where
  "yields_leaf r =
     (case ident r of
        Some name \<Rightarrow> if parents r = [] then Some (Item (length name)) else None
      | None \<Rightarrow> None)"

section \<open>Repository.map\<close>

text \<open>
  The keyword arguments of a call: only the entry \<^verbatim>\<open>'write'\<close> is inspected, by
  \<^verbatim>\<open>'write' in kwargs and kwargs['write'] is True\<close>, which holds for the object
  \<^verbatim>\<open>True\<close> alone (not for \<^verbatim>\<open>1\<close> or any other value).
\<close>

datatype 'k kwval = KTrue | KFalse | KOther 'k

type_synonym 'k kwargs = "string \<Rightarrow> 'k kwval option"

text \<open>
  \<^verbatim>\<open>doMap\<close>: the mapper's \<^verbatim>\<open>map\<close> is external and is the parameter
  \<open>mapper_map\<close>; \<^verbatim>\<open>loc.setRepository(self)\<close> stamps the location with the
  repository, which is the second component of the pair.  A location is not iterable,
  hence an \<open>Item\<close>.
\<close>

definition doMap ::
  "('m \<Rightarrow> 'x \<Rightarrow> 'k kwargs \<Rightarrow> 'l option) \<Rightarrow> 'x \<Rightarrow> 'k kwargs \<Rightarrow> ('m, 'a) repo \<Rightarrow>
     ('l \<times> ('m, 'a) repo) pyval option" where
  "doMap mapper_map args kwargs self =
     (case mapper self of
        None \<Rightarrow> None
      | Some m \<Rightarrow>
          (case mapper_map m args kwargs of
             None \<Rightarrow> None
           | Some loc \<Rightarrow> Some (Item (loc, self))))"

definition Repository_map ::
  "('m \<Rightarrow> 'x \<Rightarrow> 'k kwargs \<Rightarrow> 'l option) \<Rightarrow> 'x \<Rightarrow> 'k kwargs \<Rightarrow> ('m, 'a) repo \<Rightarrow>
     ('m, 'a) repo list \<times> ('l \<times> ('m, 'a) repo) pyval option" where
  "Repository_map mapper_map args kwargs self =
     (if kwargs ''write'' = Some KTrue
      then doSelfAndPeers (doMap mapper_map args kwargs) self
      else doParents (doMap mapper_map args kwargs) self)"

text \<open>
  An example: a repository with a mapper (its root) and no parents, and a
  mapper operation that maps every request to the file \<^verbatim>\<open>raw\<close> under the root.
\<close>

definition repoS :: "(string, unit) repo" where
  "repoS = Repository (Some ''/t/S'') None [] [] (Some ''S'') ''left''"

definition no_kwargs :: "unit kwargs" where
  "no_kwargs = Map.empty"

definition write_kwargs :: "unit kwval \<Rightarrow> unit kwargs" where
  "write_kwargs v = [''write'' \<mapsto> v]"

definition repoT :: "(string, unit) repo" where
  "repoT = Repository None None [repoS] [repoS] (Some ''T'') ''left''"

definition map_raw :: "string \<Rightarrow> unit \<Rightarrow> unit kwargs \<Rightarrow> string option" where
  "map_raw root args kwargs = Some (root @ ''/raw'')"

section \<open>Errors\<close>

text \<open>
  The exceptions the code raises, with the part of their message that does not depend
  on the representation of an external object.  The specification's
  \<^emph>\<open>ConfigurationError\<close> and \<^emph>\<open>NotFoundError\<close> are both written
  \<^verbatim>\<open>RuntimeError\<close> in the code; they differ by the place and the message.
  \<open>Unmodelled\<close> marks an input outside the typed model of this development.
\<close>

datatype error =
    RuntimeError string
  | AttributeError string
  | TypeError string
  | KeyError string
  | IndexError
  | NotImplementedError string
  | IOError string
  | OSError string
  | Unmodelled string

section \<open>The configuration binder: CfgHelper.getFuncArgs\<close>

text \<open>
  What \<^verbatim>\<open>inspect.getargspec(func)\<close> returns, as far as it is used: the parameter
  names and the default values (\<^verbatim>\<open>None\<close> when no parameter has a default, else
  the defaults of the last parameters).
\<close>

record 'd argspec =
  args :: "string list"
  defaults :: "'d list option"

text \<open>Python's \<^verbatim>\<open>xs[:k]\<close>; a negative \<open>k\<close> counts from the end.\<close>

definition slice_to :: "'x list \<Rightarrow> int \<Rightarrow> 'x list" where
  "slice_to xs k = (if k < 0 then take (nat (int (length xs) + k)) xs else take (nat k) xs)"

definition requiredArgs :: "'d argspec \<Rightarrow> string list" where
  "requiredArgs argSpec =
     (case defaults argSpec of
        Some ds \<Rightarrow> slice_to (args argSpec) (int (length (args argSpec)) - int (length ds))
      | None \<Rightarrow> args argSpec)"

definition defaultArgsToIgnore :: "string list" where
  "defaultArgsToIgnore = [''self'', ''cls'']"

text \<open>
  The loop \<^verbatim>\<open>for arg in argSpec.args\<close>, with the result \<open>ret\<close> built so far.
  The message of the error is cut before the representation of \<^verbatim>\<open>func\<close>.
\<close>

fun getFuncArgs_loop ::
  "string list \<Rightarrow> string list \<Rightarrow> (string \<Rightarrow> 'v option) \<Rightarrow> string list \<Rightarrow>
     (string \<Rightarrow> 'v option) \<Rightarrow> error + (string \<Rightarrow> 'v option)" where
  "getFuncArgs_loop [] required cfg ignoredKeys ret = Inr ret"
| "getFuncArgs_loop (arg # rest) required cfg ignoredKeys ret =
     (if arg \<in> set ignoredKeys then getFuncArgs_loop rest required cfg ignoredKeys ret
      else case cfg arg of
        Some v \<Rightarrow> getFuncArgs_loop rest required cfg ignoredKeys (ret(arg \<mapsto> v))
      | None \<Rightarrow>
          if arg \<in> set required then Inl (RuntimeError (''Missing argument:'' @ arg))
          else getFuncArgs_loop rest required cfg ignoredKeys ret)"

definition getFuncArgs ::
  "'d argspec \<Rightarrow> (string \<Rightarrow> 'v option) \<Rightarrow> string list \<Rightarrow> error + (string \<Rightarrow> 'v option)" where
  "getFuncArgs argSpec cfg ignoredKeys =
     getFuncArgs_loop (args argSpec) (requiredArgs argSpec) cfg ignoredKeys Map.empty"

text \<open>
  The specification's words: the parameters lacking a default value are all but the
  last ones, as many as there are defaults.
\<close>

definition lacking_default :: "'d argspec \<Rightarrow> string list" where
  "lacking_default argSpec =
     take (length (args argSpec) - (case defaults argSpec of None \<Rightarrow> 0 | Some ds \<Rightarrow> length ds))
       (args argSpec)"

text \<open>The parameters of a list that are required, not ignored and absent, in order.\<close>

definition missing :: "string list \<Rightarrow> string list \<Rightarrow> (string \<Rightarrow> 'v option) \<Rightarrow> string list \<Rightarrow> string list" where
  "missing as required cfg ignoredKeys =
     filter (\<lambda>a. a \<notin> set ignoredKeys \<and> cfg a = None \<and> a \<in> set required) as"

text \<open>
  Examples: a configuration with a root and an id, the argument specification of
  \<^verbatim>\<open>PosixStorage.__init__(self, root=None)\<close>, and that of a constructor
  \<^verbatim>\<open>__init__(self, root, policy, registry=None)\<close>.
\<close>

definition root_cfg :: "string \<Rightarrow> string option" where
  "root_cfg = [''root'' \<mapsto> ''/t/A'', ''id'' \<mapsto> ''x'']"

definition PosixStorage_init_spec :: "unit argspec" where
  "PosixStorage_init_spec = \<lparr> args = [''self'', ''root''], defaults = Some [()] \<rparr>"

definition mapper_init_spec :: "unit argspec" where
  "mapper_init_spec = \<lparr> args = [''self'', ''root'', ''policy'', ''registry''], defaults = Some [()] \<rparr>"

section \<open>Repository.__init__\<close>

definition supportedParentJoin :: "string list" where
  "supportedParentJoin = [''left'', ''outer'']"

text \<open>
  The argument of the \<^verbatim>\<open>raise\<close> statement is evaluated before the exception is
  built: \<^verbatim>\<open>'...%s not supported, must be one of:' % (self._parentJoin,
  Repository._supportedParentJoin)\<close>.  It reads the attribute \<^verbatim>\<open>_parentJoin\<close> of
  the object, given here by the attributes \<open>attrs\<close> the object has at that point, and
  formats a string with one conversion from a tuple of two values.
\<close>

definition parentJoin_message :: "(string \<Rightarrow> string option) \<Rightarrow> error + string" where
  "parentJoin_message attrs =
     (case attrs ''_parentJoin'' of
        None \<Rightarrow> Inl (AttributeError ''_parentJoin'')
      | Some pj \<Rightarrow> Inl (TypeError ''not all arguments converted during string formatting''))"

text \<open>
  The parameters in the order of the source; \<open>None\<close> for \<open>parents\<close> and \<open>peers\<close>
  is the default \<^verbatim>\<open>None\<close>, replaced by the empty tuple.  The check is the first
  statement, so the object has no attribute yet when the message is built.
\<close>

definition Repository_init ::
  "'m option \<Rightarrow> 'a option \<Rightarrow> ('m, 'a) repo list option \<Rightarrow> ('m, 'a) repo list option \<Rightarrow>
     string option \<Rightarrow> string \<Rightarrow> error + ('m, 'a) repo" where
  "Repository_init mapper' access' parents' peers' id' parentJoin' =
     (if parentJoin' \<notin> set supportedParentJoin then
        (case parentJoin_message Map.empty of
           Inl e \<Rightarrow> Inl e
         | Inr msg \<Rightarrow> Inl (RuntimeError msg))
      else Inr (Repository mapper' access'
                  (case parents' of None \<Rightarrow> [] | Some ps \<Rightarrow> ps)
                  (case peers' of None \<Rightarrow> [] | Some ps \<Rightarrow> ps)
                  id' parentJoin'))"

section \<open>The materializer: Repository.makeFromCfg\<close>

text \<open>
  The values found in a configuration: \<^verbatim>\<open>None\<close>, a string, the class
  \<^verbatim>\<open>Repository\<close> (for which \<^verbatim>\<open>inspect.isclass\<close> holds), an instantiated
  Repository, an access or mapper object (a class before materialization, an instance
  after it), a list, a tuple, and a nested configuration (a \<^verbatim>\<open>dict\<close>, as an
  association list).
\<close>

datatype ('m, 'a) cfgval =
    VNone
  | VStr string
  | VRepositoryClass
  | VRepository "('m, 'a) repo"
  | VAccess 'a
  | VMapper 'm
  | VList "('m, 'a) cfgval list"
  | VTuple "('m, 'a) cfgval list"
  | VDict "(string \<times> ('m, 'a) cfgval) list"

type_synonym ('m, 'a) cfgdict = "(string \<times> ('m, 'a) cfgval) list"

type_synonym ('m, 'a) kwds = "string \<Rightarrow> ('m, 'a) cfgval option"

text \<open>
  The classes \<^verbatim>\<open>Access\<close> and \<^verbatim>\<open>Mapper\<close> are not part of the sources at hand.
  Their \<^verbatim>\<open>makeFromCfg(cfg)\<close> and \<^verbatim>\<open>mapperClass()\<close> are parameters, taken to
  read the configuration and to return the object (or to raise).
\<close>

record ('m, 'a) collaborators =
  access_makeFromCfg :: "'a \<Rightarrow> ('m, 'a) cfgdict \<Rightarrow> error + 'a"
  access_mapperClass :: "'a \<Rightarrow> error + 'm option"
  mapper_makeFromCfg :: "'m \<Rightarrow> ('m, 'a) cfgdict \<Rightarrow> error + 'm"

text \<open>
  Each step takes the configuration and the keyword arguments \<^verbatim>\<open>args\<close> collected
  so far and returns both, updated.  \<^verbatim>\<open>if 'access' in cfg: ...\<close>
\<close>

definition materialize_access ::
  "('m, 'a) collaborators \<Rightarrow> ('m, 'a) cfgdict \<Rightarrow> ('m, 'a) kwds \<Rightarrow>
     error + (('m, 'a) cfgdict \<times> ('m, 'a) kwds)" where
  "materialize_access ext cfg kw =
     (case map_of cfg ''access'' of
        None \<Rightarrow> Inr (cfg, kw)
      | Some VNone \<Rightarrow> Inr (cfg, kw(''access'' \<mapsto> VNone))
      | Some (VAccess a) \<Rightarrow>
          (case access_makeFromCfg ext a cfg of
             Inl e \<Rightarrow> Inl e
           | Inr a' \<Rightarrow>
               Inr (AList.update ''access'' (VAccess a') cfg, kw(''access'' \<mapsto> VAccess a')))
      | Some _ \<Rightarrow> Inl (Unmodelled ''access''))"

text \<open>
  \<^verbatim>\<open>if cfg['mapper'] is None and cfg['access'] is not None:
      cfg['mapper'] = cfg['access'].mapperClass()\<close>; the subscript
  \<^verbatim>\<open>cfg['access']\<close> raises KeyError when the key is absent.
\<close>

definition default_mapper ::
  "('m, 'a) collaborators \<Rightarrow> ('m, 'a) cfgdict \<Rightarrow> error + ('m, 'a) cfgdict" where
  "default_mapper ext cfg =
     (case map_of cfg ''mapper'' of
        Some VNone \<Rightarrow>
          (case map_of cfg ''access'' of
             None \<Rightarrow> Inl (KeyError ''access'')
           | Some VNone \<Rightarrow> Inr cfg
           | Some (VAccess a) \<Rightarrow>
               (case access_mapperClass ext a of
                  Inl e \<Rightarrow> Inl e
                | Inr None \<Rightarrow> Inr (AList.update ''mapper'' VNone cfg)
                | Inr (Some m) \<Rightarrow> Inr (AList.update ''mapper'' (VMapper m) cfg))
           | Some _ \<Rightarrow> Inl (Unmodelled ''access''))
      | _ \<Rightarrow> Inr cfg)"

text \<open>\<^verbatim>\<open>if 'mapper' in cfg: ...\<close>\<close>

definition materialize_mapper ::
  "('m, 'a) collaborators \<Rightarrow> ('m, 'a) cfgdict \<Rightarrow> ('m, 'a) kwds \<Rightarrow>
     error + (('m, 'a) cfgdict \<times> ('m, 'a) kwds)" where
  "materialize_mapper ext cfg kw =
     (case map_of cfg ''mapper'' of
        None \<Rightarrow> Inr (cfg, kw)
      | Some _ \<Rightarrow>
          (case default_mapper ext cfg of
             Inl e \<Rightarrow> Inl e
           | Inr cfg1 \<Rightarrow>
               (case map_of cfg1 ''mapper'' of
                  Some VNone \<Rightarrow> Inr (cfg1, kw(''mapper'' \<mapsto> VNone))
                | Some (VMapper m) \<Rightarrow>
                    (case mapper_makeFromCfg ext m cfg1 of
                       Inl e \<Rightarrow> Inl e
                     | Inr m' \<Rightarrow>
                         Inr (AList.update ''mapper'' (VMapper m') cfg1,
                              kw(''mapper'' \<mapsto> VMapper m')))
                | _ \<Rightarrow> Inl (Unmodelled ''mapper''))))"

text \<open>
  The value of \<^verbatim>\<open>cfg['parents']\<close> (or \<^verbatim>\<open>cfg['peers']\<close>) as the list that is
  then materialized entry by entry: a list stays, a tuple (no \<^verbatim>\<open>__setitem__\<close>)
  becomes a list, and anything without \<^verbatim>\<open>__iter__\<close>, or a \<^verbatim>\<open>dict\<close>, becomes
  a one-element list.
\<close>

fun as_list :: "('m, 'a) cfgval \<Rightarrow> ('m, 'a) cfgval list" where
  "as_list (VList xs) = xs"
| "as_list (VTuple xs) = xs"
| "as_list v = [v]"

text \<open>
  The keyword arguments as the typed parameters of \<^verbatim>\<open>Repository.__init__\<close>; an
  absent key is the parameter's default.  \<open>None\<close> is an argument that the typed
  Repository of this development cannot hold.
\<close>

fun arg_mapper :: "('m, 'a) cfgval option \<Rightarrow> 'm option option" where
  "arg_mapper None = Some None"
| "arg_mapper (Some VNone) = Some None"
| "arg_mapper (Some (VMapper m)) = Some (Some m)"
| "arg_mapper (Some _) = None"

fun arg_access :: "('m, 'a) cfgval option \<Rightarrow> 'a option option" where
  "arg_access None = Some None"
| "arg_access (Some VNone) = Some None"
| "arg_access (Some (VAccess a)) = Some (Some a)"
| "arg_access (Some _) = None"

fun arg_repo :: "('m, 'a) cfgval \<Rightarrow> ('m, 'a) repo option" where
  "arg_repo (VRepository r) = Some r"
| "arg_repo _ = None"

fun arg_repos :: "('m, 'a) cfgval option \<Rightarrow> ('m, 'a) repo list option option" where
  "arg_repos None = Some None"
| "arg_repos (Some VNone) = Some None"
| "arg_repos (Some (VList vs)) =
     (if list_all (\<lambda>v. arg_repo v \<noteq> None) vs then Some (Some (map (\<lambda>v. the (arg_repo v)) vs))
      else None)"
| "arg_repos (Some _) = None"

fun arg_id :: "('m, 'a) cfgval option \<Rightarrow> string option option" where
  "arg_id None = Some None"
| "arg_id (Some VNone) = Some None"
| "arg_id (Some (VStr s)) = Some (Some s)"
| "arg_id (Some _) = None"

text \<open>
  \<^verbatim>\<open>Repository(**args)\<close>.  A parentJoin that is not a string is not in
  \<^verbatim>\<open>_supportedParentJoin\<close> and takes the \<^verbatim>\<open>raise\<close> statement of the constructor.
\<close>

definition call_Repository :: "('m, 'a) kwds \<Rightarrow> error + ('m, 'a) repo" where
  "call_Repository kw =
     (case (arg_mapper (kw ''mapper''), arg_access (kw ''access''), arg_repos (kw ''parents''),
            arg_repos (kw ''peers''), arg_id (kw ''id'')) of
        (Some m, Some a, Some ps, Some prs, Some i) \<Rightarrow>
          (case kw ''parentJoin'' of
             None \<Rightarrow> Repository_init m a ps prs i ''left''
           | Some (VStr pj) \<Rightarrow> Repository_init m a ps prs i pj
           | Some _ \<Rightarrow>
               (case parentJoin_message Map.empty of
                  Inl e \<Rightarrow> Inl e
                | Inr msg \<Rightarrow> Inl (RuntimeError msg)))
      | _ \<Rightarrow> Inl (Unmodelled ''Repository arguments''))"

text \<open>
  The end of \<^verbatim>\<open>makeFromCfg\<close>: the keys \<^verbatim>\<open>parentJoin\<close> and \<^verbatim>\<open>id\<close>, then
  \<^verbatim>\<open>cfg['repository']\<close>.  For a string the code evaluates
  \<^verbatim>\<open>NotImplemented("...")\<close>, a call of an object that is not callable.  The result
  is the configuration after the call and the value returned.
\<close>

definition instantiate ::
  "('m, 'a) cfgdict \<Rightarrow> ('m, 'a) kwds \<Rightarrow> error + (('m, 'a) cfgval \<times> ('m, 'a) cfgval)" where
  "instantiate cfg kw0 =
     (let kw1 = (case map_of cfg ''parentJoin'' of None \<Rightarrow> kw0 | Some v \<Rightarrow> kw0(''parentJoin'' \<mapsto> v));
          kw = (case map_of cfg ''id'' of None \<Rightarrow> kw1 | Some v \<Rightarrow> kw1(''id'' \<mapsto> v))
      in case map_of cfg ''repository'' of
           None \<Rightarrow> Inl (KeyError ''repository'')
         | Some (VStr s) \<Rightarrow> Inl (TypeError ''NotImplementedType object is not callable'')
         | Some VRepositoryClass \<Rightarrow>
             (case call_Repository kw of
                Inl e \<Rightarrow> Inl e
              | Inr r \<Rightarrow>
                  Inr (VDict (AList.update ''repository'' (VRepository r) cfg), VRepository r))
         | Some v \<Rightarrow> Inr (VDict cfg, v))"

text \<open>
  \<^verbatim>\<open>cfg[key] = [the materialized entries]; args[key] = cfg[key]\<close>
\<close>

definition store_entries ::
  "string \<Rightarrow> ('m, 'a) cfgval list \<Rightarrow> ('m, 'a) cfgdict \<times> ('m, 'a) kwds \<Rightarrow>
     ('m, 'a) cfgdict \<times> ('m, 'a) kwds" where
  "store_entries key rs s = (AList.update key (VList rs) (fst s), (snd s)(key \<mapsto> VList rs))"

text \<open>
  \<open>makeFromCfg ext cfg\<close> returns the configuration after the call (the input
  mapping is updated in place) and the value returned; a value that is not a
  \<^verbatim>\<open>dict\<close> is returned as it is.  The states \<open>s1\<close> to \<open>s4\<close> are the
  configuration and the keyword arguments after the steps for \<^verbatim>\<open>access\<close>,
  \<^verbatim>\<open>mapper\<close>, \<^verbatim>\<open>parents\<close> and \<^verbatim>\<open>peers\<close>.  \<open>makeFromCfg_entries\<close> is
  the loop \<^verbatim>\<open>for i in xrange(len(cfg['parents'])): cfg['parents'][i] =
  Repository.makeFromCfg(cfg['parents'][i])\<close>, which keeps the values returned.
\<close>

function makeFromCfg ::
  "('m, 'a) collaborators \<Rightarrow> ('m, 'a) cfgval \<Rightarrow> error + (('m, 'a) cfgval \<times> ('m, 'a) cfgval)"
and makeFromCfg_entries ::
  "('m, 'a) collaborators \<Rightarrow> ('m, 'a) cfgval list \<Rightarrow> error + ('m, 'a) cfgval list"
where
  "makeFromCfg ext (VDict cfg) =
     (case materialize_access ext cfg Map.empty of
        Inl e \<Rightarrow> Inl e
      | Inr s1 \<Rightarrow>
     (case materialize_mapper ext (fst s1) (snd s1) of
        Inl e \<Rightarrow> Inl e
      | Inr s2 \<Rightarrow>
     (case (case map_of (fst s2) ''parents'' of
              None \<Rightarrow> Inr s2
            | Some v \<Rightarrow>
                (case makeFromCfg_entries ext (as_list v) of
                   Inl e \<Rightarrow> Inl e
                 | Inr rs \<Rightarrow> Inr (store_entries ''parents'' rs s2))) of
        Inl e \<Rightarrow> Inl e
      | Inr s3 \<Rightarrow>
     (case (case map_of (fst s3) ''peers'' of
              None \<Rightarrow> Inr s3
            | Some v \<Rightarrow>
                (case makeFromCfg_entries ext (as_list v) of
                   Inl e \<Rightarrow> Inl e
                 | Inr rs \<Rightarrow> Inr (store_entries ''peers'' rs s3))) of
        Inl e \<Rightarrow> Inl e
      | Inr s4 \<Rightarrow> instantiate (fst s4) (snd s4)))))"
| "makeFromCfg ext VNone = Inr (VNone, VNone)"
| "makeFromCfg ext (VStr s) = Inr (VStr s, VStr s)"
| "makeFromCfg ext VRepositoryClass = Inr (VRepositoryClass, VRepositoryClass)"
| "makeFromCfg ext (VRepository r) = Inr (VRepository r, VRepository r)"
| "makeFromCfg ext (VAccess a) = Inr (VAccess a, VAccess a)"
| "makeFromCfg ext (VMapper m) = Inr (VMapper m, VMapper m)"
| "makeFromCfg ext (VList xs) = Inr (VList xs, VList xs)"
| "makeFromCfg ext (VTuple xs) = Inr (VTuple xs, VTuple xs)"
| "makeFromCfg_entries ext [] = Inr []"
| "makeFromCfg_entries ext (v # vs) =
     (case makeFromCfg ext v of
        Inl e \<Rightarrow> Inl e
      | Inr res \<Rightarrow>
          (case makeFromCfg_entries ext vs of
             Inl e \<Rightarrow> Inl e
           | Inr rs \<Rightarrow> Inr (snd res # rs)))"
  by pat_completeness auto

termination makeFromCfg
proof -
  have as_list_size: "\<And>v :: ('a, 'b) cfgval. size_list size (as_list v) \<le> Suc (size v)"
  proof -
    fix v :: "('a, 'b) cfgval"
    show "size_list size (as_list v) \<le> Suc (size v)" by (cases v) simp_all
  qed
  have entry_size: "\<And>(cfg :: ('a, 'b) cfgdict) k v. map_of cfg k = Some v \<Longrightarrow>
      size_list size (as_list v) < Suc (size_list (size_prod (\<lambda>x. 0) size) cfg)"
  proof -
    fix cfg :: "('a, 'b) cfgdict" and k v
    assume "map_of cfg k = Some v"
    then have "Suc (Suc (size v)) \<le> size_list (size_prod (\<lambda>x. 0) size) cfg"
    proof (induction cfg)
      case Nil
      then show ?case by simp
    next
      case (Cons kv cfg)
      then show ?case by (cases kv) (auto split: if_splits)
    qed
    then show "size_list size (as_list v) < Suc (size_list (size_prod (\<lambda>x. 0) size) cfg)"
      using as_list_size[of v] by simp
  qed
  have access_frame: "\<And>(ext :: ('a, 'b) collaborators) cfg kw b k.
      materialize_access ext cfg kw = Inr b \<Longrightarrow> k \<noteq> ''access'' \<Longrightarrow> map_of (fst b) k = map_of cfg k"
    by (auto simp add: materialize_access_def update_conv' split: option.splits cfgval.splits sum.splits)
  have mapper_frame: "\<And>(ext :: ('a, 'b) collaborators) cfg kw b k.
      materialize_mapper ext cfg kw = Inr b \<Longrightarrow> k \<noteq> ''mapper'' \<Longrightarrow> map_of (fst b) k = map_of cfg k"
    by (auto simp add: materialize_mapper_def default_mapper_def update_conv'
        split: option.splits cfgval.splits sum.splits)
  show ?thesis
  proof (relation "measure (case_sum (\<lambda>p. size (snd p)) (\<lambda>p. size_list size (snd p)))", goal_cases)
    case 1
    then show ?case by simp
  next
    case (2 ext cfg s1 s2 v)
    have "map_of cfg ''parents'' = Some v"
      using 2 access_frame[of ext cfg Map.empty s1 "''parents''"]
        mapper_frame[of ext "fst s1" "snd s1" s2 "''parents''"] by simp
    then show ?case using entry_size by simp
  next
    case (3 ext cfg s1 s2 s3 v)
    have "map_of (fst s3) ''peers'' = map_of (fst s2) ''peers''"
      using 3(3) by (auto simp add: store_entries_def update_conv' split: option.splits sum.splits)
    then have "map_of cfg ''peers'' = Some v"
      using 3 access_frame[of ext cfg Map.empty s1 "''peers''"]
        mapper_frame[of ext "fst s1" "snd s1" s2 "''peers''"] by simp
    then show ?case using entry_size by simp
  next
    case 4
    then show ?case by simp
  next
    case 5
    then show ?case by simp
  qed
qed

text \<open>
  An example: external constructors that return the instance of a class, written as
  the class name followed by \<^verbatim>\<open>()\<close>, and the configuration of a repository
  with one parent, given as a single nested configuration.
\<close>

definition ext_example :: "(string, string) collaborators" where
  "ext_example =
     \<lparr> access_makeFromCfg = (\<lambda>a cfg. Inr (a @ ''()'')),
       access_mapperClass = (\<lambda>a. Inr None),
       mapper_makeFromCfg = (\<lambda>m cfg. Inr (m @ ''()'')) \<rparr>"

definition inputRepoCfg :: "(string, string) cfgdict" where
  "inputRepoCfg =
     [(''repository'', VRepositoryClass), (''mapper'', VMapper ''ParentMapper''),
      (''access'', VAccess ''Access'')]"

definition repoBCfg :: "(string, string) cfgdict" where
  "repoBCfg =
     [(''repository'', VRepositoryClass), (''mapper'', VMapper ''ChildrenMapper''),
      (''parents'', VDict inputRepoCfg), (''access'', VAccess ''Access'')]"

definition inputRepo :: "(string, string) repo" where
  "inputRepo = Repository (Some ''ParentMapper()'') (Some ''Access()'') [] [] None ''left''"

definition repoB' :: "(string, string) repo" where
  "repoB' = Repository (Some ''ChildrenMapper()'') (Some ''Access()'') [inputRepo] [] None ''left''"

definition repoBCfg_after :: "(string, string) cfgdict" where
  "repoBCfg_after =
     [(''repository'', VRepository repoB'), (''mapper'', VMapper ''ChildrenMapper()''),
      (''parents'', VList [VRepository inputRepo]), (''access'', VAccess ''Access()'')]"

text \<open>A configuration with a join mode that is not supported.\<close>

definition innerJoinCfg :: "(string, string) cfgdict" where
  "innerJoinCfg = [(''repository'', VRepositoryClass), (''parentJoin'', VStr ''inner'')]"

section \<open>Locations and the file system\<close>

text \<open>
  Modelled from the spec: \<^verbatim>\<open>ButlerLocation\<close>, whose class is not among the sources at
  hand.  "ButlerLocation: pythonType (target value type or required capability
  marker), storageName (backend-kind discriminator), locations (ordered sequence of
  backend-specific address strings, usually length 1), dataId, additionalData
  (auxiliary parameters for the backend)."  The record has the fields the storage code
  reads through the getters; a \<^verbatim>\<open>pythonType\<close> is \<^verbatim>\<open>None\<close>, a dotted name or a
  type object.
\<close>

datatype 'c pythonType = NoType | TypeName string | TypeObject 'c

record ('c, 'ad) ButlerLocation =
  pythonType :: "'c pythonType"
  storageName :: string
  locations :: "string list"
  additionalData :: 'ad

text \<open>
  The file system: the directories that exist and the content of the files.
  Serialization is outside the scope of the development: a file holds the object that
  was written to it.
\<close>

record 'o filesystem =
  dirs :: "string set"
  files :: "string \<Rightarrow> 'o option"

text \<open>\<^verbatim>\<open>os.path.exists\<close>\<close>

definition path_exists :: "string \<Rightarrow> 'o filesystem \<Rightarrow> bool" where
  "path_exists p fs = (p = ''/'' \<or> p \<in> dirs fs \<or> files fs p \<noteq> None)"

text \<open>
  \<^verbatim>\<open>os.path.dirname\<close> of \<^verbatim>\<open>posixpath\<close>: the path up to and including its last
  slash, without the trailing slashes unless it consists of slashes only.
\<close>

definition dirname :: "string \<Rightarrow> string" where
  "dirname p =
     (let head = rev (dropWhile (\<lambda>c. c \<noteq> CHR ''/'') (rev p))
      in if head \<noteq> [] \<and> \<not> list_all (\<lambda>c. c = CHR ''/'') head
         then rev (dropWhile (\<lambda>c. c = CHR ''/'') (rev head))
         else head)"

text \<open>The path and the directories above it: the prefixes that end before a slash.\<close>

definition path_prefixes :: "string \<Rightarrow> string list" where
  "path_prefixes p =
     map (\<lambda>n. take n p)
       (filter (\<lambda>n. n = length p \<or> p ! n = CHR ''/'') [1..<Suc (length p)])"

text \<open>
  \<^verbatim>\<open>os.makedirs\<close>: fails on the empty name, on a path that exists, and when a
  directory above it is a file.
\<close>

definition makedirs :: "string \<Rightarrow> 'o filesystem \<Rightarrow> error + 'o filesystem" where
  "makedirs name fs =
     (if name = [] \<or> path_exists name fs \<or> list_ex (\<lambda>q. files fs q \<noteq> None) (path_prefixes name)
      then Inl (OSError name)
      else Inr (fs\<lparr>dirs := dirs fs \<union> set (path_prefixes name)\<rparr>))"

text \<open>
  \<^verbatim>\<open>with open(path, 'w') as f: dump(obj, f)\<close>: fails when the path is a directory or
  its directory does not exist (the empty directory name is the current directory).
\<close>

definition write_file :: "string \<Rightarrow> 'o \<Rightarrow> 'o filesystem \<Rightarrow> error + 'o filesystem" where
  "write_file path content fs =
     (if path \<in> dirs fs \<or> \<not> (dirname path = [] \<or> dirname path = ''/'' \<or> dirname path \<in> dirs fs)
      then Inl (IOError path)
      else Inr (fs\<lparr>files := (files fs)(path \<mapsto> content)\<rparr>))"

text \<open>\<^verbatim>\<open>with open(path) as f: load(f)\<close>\<close>

definition read_file :: "string \<Rightarrow> 'o filesystem \<Rightarrow> error + 'o" where
  "read_file path fs = (case files fs path of None \<Rightarrow> Inl (IOError path) | Some content \<Rightarrow> Inr content)"

text \<open>\<^verbatim>\<open>os.rename\<close>\<close>

definition rename_file :: "string \<Rightarrow> string \<Rightarrow> 'o filesystem \<Rightarrow> error + 'o filesystem" where
  "rename_file src dst fs =
     (case files fs src of
        None \<Rightarrow> Inl (OSError src)
      | Some content \<Rightarrow>
          if src = dst then Inr fs
          else Inr (fs\<lparr>files := (files fs)(src := None, dst \<mapsto> content)\<rparr>))"

section \<open>RepositoryCfg: reading and writing a repository descriptor\<close>

text \<open>
  A descriptor is a mapping from keys to values; a value is a string or something
  else.  \<^verbatim>\<open>LogicalLocation(location, additionalData).locString()\<close> is external and is
  the parameter \<open>loc\<close>.  The comparison
  \<^verbatim>\<open>butlerLocation.getStorageName() is not "YamlStorage"\<close> is read as inequality of
  strings.
\<close>

datatype 'v yval = YStr string | YOther 'v

type_synonym 'v policy = "string \<Rightarrow> 'v yval option"

fun butlerWrite_loop ::
  "(string \<Rightarrow> 'ad \<Rightarrow> string) \<Rightarrow> 'v policy \<Rightarrow> 'ad \<Rightarrow> string list \<Rightarrow> 'v policy filesystem \<Rightarrow>
     error + 'v policy filesystem" where
  "butlerWrite_loop loc obj ad [] fs = Inr fs"
| "butlerWrite_loop loc obj ad (location # rest) fs =
     (case (if \<not> path_exists (dirname (loc location ad)) fs
            then makedirs (dirname (loc location ad)) fs else Inr fs) of
        Inl e \<Rightarrow> Inl e
      | Inr fs1 \<Rightarrow>
          (case write_file (loc location ad) obj fs1 of
             Inl e \<Rightarrow> Inl e
           | Inr fs2 \<Rightarrow> butlerWrite_loop loc obj ad rest fs2))"

definition RepositoryCfg_butlerWrite ::
  "(string \<Rightarrow> 'ad \<Rightarrow> string) \<Rightarrow> 'v policy \<Rightarrow> ('c, 'ad) ButlerLocation \<Rightarrow> 'v policy filesystem \<Rightarrow>
     error + 'v policy filesystem" where
  "RepositoryCfg_butlerWrite loc obj butlerLocation fs =
     (if storageName butlerLocation \<noteq> ''YamlStorage''
      then Inl (NotImplementedError ''RepositoryCfg only supports YamlStorage'')
      else butlerWrite_loop loc obj (additionalData butlerLocation) (locations butlerLocation) fs)"

fun butlerRead_loop ::
  "(string \<Rightarrow> 'ad \<Rightarrow> string) \<Rightarrow> 'ad \<Rightarrow> string list \<Rightarrow> 'v policy filesystem \<Rightarrow> 'v policy list \<Rightarrow>
     error + 'v policy list" where
  "butlerRead_loop loc ad [] fs ret = Inr ret"
| "butlerRead_loop loc ad (location # rest) fs ret =
     (case read_file (loc location ad) fs of
        Inl e \<Rightarrow> Inl e
      | Inr cfg \<Rightarrow>
          butlerRead_loop loc ad rest fs (ret @ [cfg(''root'' \<mapsto> YStr (dirname location))]))"

definition RepositoryCfg_butlerRead ::
  "(string \<Rightarrow> 'ad \<Rightarrow> string) \<Rightarrow> ('c, 'ad) ButlerLocation \<Rightarrow> 'v policy filesystem \<Rightarrow>
     error + 'v policy list" where
  "RepositoryCfg_butlerRead loc butlerLocation fs =
     (if storageName butlerLocation \<noteq> ''YamlStorage''
      then Inl (NotImplementedError ''RepositoryCfg only supports YamlStorage'')
      else butlerRead_loop loc (additionalData butlerLocation) (locations butlerLocation) fs [])"

section \<open>PosixStorage: write and read\<close>

text \<open>
  The collaborators of the storage that are not part of the sources at hand, as
  parameters: \<^verbatim>\<open>LogicalLocation(...).locString()\<close>; the scoped temporary name
  \<^verbatim>\<open>SafeFilename\<close>, applied to the final name, the body of the \<^verbatim>\<open>with\<close> block
  and the file system; the dynamic import of a dotted type name; the
  \<^verbatim>\<open>butlerWrite\<close> and \<^verbatim>\<open>butlerRead\<close> of a type object (\<open>None\<close> when
  \<^verbatim>\<open>hasattr\<close> is false); and the codecs behind each storage name.  A decoder
  receives the resolved python type where the code uses it.
\<close>

record ('o, 'c, 'ad) storage_ext =
  locString :: "string \<Rightarrow> 'ad \<Rightarrow> string"
  SafeFilename ::
    "string \<Rightarrow> (string \<Rightarrow> 'o filesystem \<Rightarrow> error + 'o filesystem) \<Rightarrow> 'o filesystem \<Rightarrow>
       error + 'o filesystem"
  import_class :: "string \<Rightarrow> error + 'c"
  butlerWrite_of ::
    "'c \<Rightarrow> ('o \<Rightarrow> ('c, 'ad) ButlerLocation \<Rightarrow> 'o filesystem \<Rightarrow> error + 'o filesystem) option"
  butlerRead_of ::
    "'c \<Rightarrow> (('c, 'ad) ButlerLocation \<Rightarrow> 'o filesystem \<Rightarrow> error + 'o list) option"
  cPickle_dump :: "'o \<Rightarrow> string \<Rightarrow> 'o filesystem \<Rightarrow> error + 'o filesystem"
  obj_save :: "'o \<Rightarrow> string \<Rightarrow> 'o filesystem \<Rightarrow> error + 'o filesystem"
  obj_writeFits :: "'o \<Rightarrow> string \<Rightarrow> 'ad \<Rightarrow> 'o filesystem \<Rightarrow> error + 'o filesystem"
  persist :: "string \<Rightarrow> 'o \<Rightarrow> string \<Rightarrow> 'ad \<Rightarrow> 'o filesystem \<Rightarrow> error + 'o filesystem"
  deref :: "'o \<Rightarrow> 'o option"
  createPolicy :: "string \<Rightarrow> 'o filesystem \<Rightarrow> error + 'o"
  Policy_load :: "string \<Rightarrow> 'o filesystem \<Rightarrow> error + 'o"
  cPickle_load :: "string \<Rightarrow> 'o filesystem \<Rightarrow> error + 'o"
  readFits :: "'c option \<Rightarrow> string \<Rightarrow> 'ad \<Rightarrow> 'o filesystem \<Rightarrow> error + 'o"
  config_load :: "'c option \<Rightarrow> string \<Rightarrow> 'o filesystem \<Rightarrow> error + 'o"
  unsafeRetrieve :: "'c option \<Rightarrow> string \<Rightarrow> string \<Rightarrow> 'ad \<Rightarrow> 'o filesystem \<Rightarrow> error + 'o"

text \<open>\<^verbatim>\<open>CfgHelper.getModule\<close>\<close>

definition getModule :: "('o, 'c, 'ad) storage_ext \<Rightarrow> 'c pythonType \<Rightarrow> error + 'c" where
  "getModule ext pt =
     (case pt of
        TypeName name \<Rightarrow> import_class ext name
      | _ \<Rightarrow> Inl (RuntimeError ''get_module requires a string argument''))"

text \<open>
  The python type after the first statements of \<^verbatim>\<open>write\<close>:
  \<^verbatim>\<open>if pythonType is not None and isinstance(pythonType, basestring):
      pythonType = CfgHelper.getModule(pythonType)\<close>
\<close>

definition write_pythonType ::
  "('o, 'c, 'ad) storage_ext \<Rightarrow> 'c pythonType \<Rightarrow> error + 'c option" where
  "write_pythonType ext pt =
     (case pt of
        NoType \<Rightarrow> Inr None
      | TypeName name \<Rightarrow>
          (case getModule ext (TypeName name) of Inl e \<Rightarrow> Inl e | Inr c \<Rightarrow> Inr (Some c))
      | TypeObject c \<Rightarrow> Inr (Some c))"

text \<open>The body of \<^verbatim>\<open>with SafeFilename(locations[0]) as locationString\<close>.\<close>

definition write_body ::
  "('o, 'c, 'ad) storage_ext \<Rightarrow> string \<Rightarrow> 'ad \<Rightarrow> 'o \<Rightarrow> string \<Rightarrow> 'o filesystem \<Rightarrow>
     error + 'o filesystem" where
  "write_body ext name ad obj locationString fs =
     (let logLoc = locString ext locationString ad in
      if name = ''PickleStorage'' then cPickle_dump ext obj logLoc fs
      else if name = ''ConfigStorage'' then obj_save ext obj logLoc fs
      else if name = ''FitsCatalogStorage'' then obj_writeFits ext obj logLoc ad fs
      else if name = ''FitsStorage'' then persist ext name obj logLoc ad fs
      else (case deref ext obj of
              Some target \<Rightarrow> persist ext name target logLoc ad fs
            | None \<Rightarrow> persist ext name obj logLoc ad fs))"

text \<open>
  \<^verbatim>\<open>PosixStorage.write(butlerLocation, obj)\<close>; \<^verbatim>\<open>locations[0]\<close> raises
  IndexError on an empty list.
\<close>

definition PosixStorage_write ::
  "('o, 'c, 'ad) storage_ext \<Rightarrow> ('c, 'ad) ButlerLocation \<Rightarrow> 'o \<Rightarrow> 'o filesystem \<Rightarrow>
     error + 'o filesystem" where
  "PosixStorage_write ext butlerLocation obj fs =
     (case write_pythonType ext (pythonType butlerLocation) of
        Inl e \<Rightarrow> Inl e
      | Inr pt \<Rightarrow>
          (case (case pt of None \<Rightarrow> None | Some c \<Rightarrow> butlerWrite_of ext c) of
             Some butlerWrite \<Rightarrow> butlerWrite obj butlerLocation fs
           | None \<Rightarrow>
               (case locations butlerLocation of
                  [] \<Rightarrow> Inl IndexError
                | location0 # rest \<Rightarrow>
                    SafeFilename ext location0
                      (write_body ext (storageName butlerLocation)
                         (additionalData butlerLocation) obj) fs)))"

text \<open>
  The python type after the first statements of \<^verbatim>\<open>read\<close>, which import a dotted
  name in place.
\<close>

definition read_pythonType ::
  "('o, 'c, 'ad) storage_ext \<Rightarrow> 'c pythonType \<Rightarrow> error + 'c option" where
  "read_pythonType ext pt =
     (case pt of
        NoType \<Rightarrow> Inr None
      | TypeName name \<Rightarrow>
          (case import_class ext name of Inl e \<Rightarrow> Inl e | Inr c \<Rightarrow> Inr (Some c))
      | TypeObject c \<Rightarrow> Inr (Some c))"

text \<open>One round of the loop \<^verbatim>\<open>for locationString in locations\<close>: the item read.\<close>

definition read_item ::
  "('o, 'c, 'ad) storage_ext \<Rightarrow> 'c option \<Rightarrow> string \<Rightarrow> 'ad \<Rightarrow> string \<Rightarrow> 'o filesystem \<Rightarrow>
     error + 'o" where
  "read_item ext pt name ad locationString fs =
     (let logLoc = locString ext locationString ad in
      if name = ''PafStorage'' then createPolicy ext logLoc fs
      else if name = ''YamlStorage'' then Policy_load ext logLoc fs
      else if name = ''PickleStorage'' then
        (if \<not> path_exists logLoc fs then Inl (RuntimeError (''No such pickle file: '' @ logLoc))
         else cPickle_load ext logLoc fs)
      else if name = ''FitsCatalogStorage'' then
        (if \<not> path_exists logLoc fs
         then Inl (RuntimeError (''No such FITS catalog file: '' @ logLoc))
         else readFits ext pt logLoc ad fs)
      else if name = ''ConfigStorage'' then
        (if \<not> path_exists logLoc fs then Inl (RuntimeError (''No such config file: '' @ logLoc))
         else config_load ext pt logLoc fs)
      else unsafeRetrieve ext pt name logLoc ad fs)"

fun read_loop ::
  "('o, 'c, 'ad) storage_ext \<Rightarrow> 'c option \<Rightarrow> string \<Rightarrow> 'ad \<Rightarrow> string list \<Rightarrow> 'o filesystem \<Rightarrow>
     'o list \<Rightarrow> error + 'o list" where
  "read_loop ext pt name ad [] fs results = Inr results"
| "read_loop ext pt name ad (locationString # rest) fs results =
     (case read_item ext pt name ad locationString fs of
        Inl e \<Rightarrow> Inl e
      | Inr finalItem \<Rightarrow> read_loop ext pt name ad rest fs (results @ [finalItem]))"

definition PosixStorage_read ::
  "('o, 'c, 'ad) storage_ext \<Rightarrow> ('c, 'ad) ButlerLocation \<Rightarrow> 'o filesystem \<Rightarrow> error + 'o list" where
  "PosixStorage_read ext butlerLocation fs =
     (case read_pythonType ext (pythonType butlerLocation) of
        Inl e \<Rightarrow> Inl e
      | Inr pt \<Rightarrow>
          (case (case pt of None \<Rightarrow> None | Some c \<Rightarrow> butlerRead_of ext c) of
             Some butlerRead \<Rightarrow> butlerRead butlerLocation fs
           | None \<Rightarrow>
               read_loop ext pt (storageName butlerLocation) (additionalData butlerLocation)
                 (locations butlerLocation) fs []))"

text \<open>
  The specification's words: the storage names whose read requires the target to
  exist, with the message of the error.
\<close>

definition no_such :: "string \<Rightarrow> string option" where
  "no_such name =
     (if name = ''PickleStorage'' then Some ''No such pickle file: ''
      else if name = ''FitsCatalogStorage'' then Some ''No such FITS catalog file: ''
      else if name = ''ConfigStorage'' then Some ''No such config file: ''
      else None)"

subsection \<open>A storage over plain files\<close>

text \<open>
  Modelled from the spec: \<^verbatim>\<open>SafeFilename\<close>, whose module is not among the sources at
  hand.  "Every write to a file-backed location is performed as a scoped acquisition
  of a temporary name with guaranteed atomic rename to the final path on success and
  guaranteed discard on any failure path."
\<close>

definition SafeFilename_tmp ::
  "string \<Rightarrow> (string \<Rightarrow> 'o filesystem \<Rightarrow> error + 'o filesystem) \<Rightarrow> 'o filesystem \<Rightarrow>
     error + 'o filesystem" where
  "SafeFilename_tmp name body fs =
     (case body (name @ ''.tmp'') fs of
        Inl e \<Rightarrow> Inl e
      | Inr fs' \<Rightarrow> rename_file (name @ ''.tmp'') name fs')"

text \<open>
  Locations are paths as they stand, type objects are named by their class, only
  \<^verbatim>\<open>RepositoryCfg\<close> reads and writes itself, and every codec stores the object in
  the file.
\<close>

definition plain_loc :: "string \<Rightarrow> unit \<Rightarrow> string" where
  "plain_loc location ad = location"

definition ext_files :: "(unit policy, string, unit) storage_ext" where
  "ext_files =
     \<lparr> locString = plain_loc,
       SafeFilename = SafeFilename_tmp,
       import_class = (\<lambda>name. Inr name),
       butlerWrite_of =
         (\<lambda>c. if c = ''RepositoryCfg'' then Some (RepositoryCfg_butlerWrite plain_loc) else None),
       butlerRead_of =
         (\<lambda>c. if c = ''RepositoryCfg'' then Some (RepositoryCfg_butlerRead plain_loc) else None),
       cPickle_dump = (\<lambda>obj path fs. write_file path obj fs),
       obj_save = (\<lambda>obj path fs. write_file path obj fs),
       obj_writeFits = (\<lambda>obj path ad fs. write_file path obj fs),
       persist = (\<lambda>name obj path ad fs. write_file path obj fs),
       deref = (\<lambda>obj. None),
       createPolicy = read_file,
       Policy_load = read_file,
       cPickle_load = read_file,
       readFits = (\<lambda>pt path ad fs. read_file path fs),
       config_load = (\<lambda>pt path fs. read_file path fs),
       unsafeRetrieve = (\<lambda>pt name path ad fs. read_file path fs) \<rparr>"

definition empty_fs :: "unit policy filesystem" where
  "empty_fs = \<lparr> dirs = {}, files = Map.empty \<rparr>"

definition cfg_doc :: "unit policy" where
  "cfg_doc = [''mapper'' \<mapsto> YStr ''lsst.obs.Mapper'']"

definition cfg_location :: "(string, unit) ButlerLocation" where
  "cfg_location =
     \<lparr> pythonType = TypeObject ''RepositoryCfg'', storageName = ''YamlStorage'',
       locations = [''/t/A/repoCfg.yaml''], additionalData = () \<rparr>"

definition fs_A :: "unit policy filesystem" where
  "fs_A = \<lparr> dirs = {''/t'', ''/t/A''}, files = [''/t/A/repoCfg.yaml'' \<mapsto> cfg_doc] \<rparr>"

definition pickle_cfg_location :: "(string, unit) ButlerLocation" where
  "pickle_cfg_location =
     \<lparr> pythonType = TypeObject ''RepositoryCfg'', storageName = ''PickleStorage'',
       locations = [''/t/A/cfg.pickle''], additionalData = () \<rparr>"

definition pickle_location :: "string list \<Rightarrow> (string, unit) ButlerLocation" where
  "pickle_location ls =
     \<lparr> pythonType = TypeName ''lsst.Obj'', storageName = ''PickleStorage'',
       locations = ls, additionalData = () \<rparr>"

definition fs_T :: "unit policy filesystem" where
  "fs_T = \<lparr> dirs = {''/t''}, files = Map.empty \<rparr>"

text \<open>
  The specification's words: a location whose target type has a serialization
  capability of its own, for writing and for reading.
\<close>

definition self_writing :: "('o, 'c, 'ad) storage_ext \<Rightarrow> ('c, 'ad) ButlerLocation \<Rightarrow> bool" where
  "self_writing ext butlerLocation =
     (case write_pythonType ext (pythonType butlerLocation) of
        Inr (Some c) \<Rightarrow> butlerWrite_of ext c \<noteq> None
      | _ \<Rightarrow> False)"

definition self_reading :: "('o, 'c, 'ad) storage_ext \<Rightarrow> ('c, 'ad) ButlerLocation \<Rightarrow> bool" where
  "self_reading ext butlerLocation =
     (case read_pythonType ext (pythonType butlerLocation) of
        Inr (Some c) \<Rightarrow> butlerRead_of ext c \<noteq> None
      | _ \<Rightarrow> False)"

definition fs_a :: "unit policy filesystem" where
  "fs_a = \<lparr> dirs = {''/t''}, files = [''/t/a.pickle'' \<mapsto> cfg_doc] \<rparr>"

text \<open>
  The object that reaches the codec in \<^verbatim>\<open>write\<close>: the object itself, or what a
  smart pointer dereferences to on the generic path.
\<close>

definition stored :: "('o, 'c, 'ad) storage_ext \<Rightarrow> string \<Rightarrow> 'o \<Rightarrow> 'o" where
  "stored ext name obj =
     (if name = ''PickleStorage'' \<or> name = ''ConfigStorage'' \<or> name = ''FitsCatalogStorage''
         \<or> name = ''FitsStorage''
      then obj
      else (case deref ext obj of Some target \<Rightarrow> target | None \<Rightarrow> obj))"

text \<open>
  A file-backed storage: locations are paths as they stand, a write goes through the
  temporary name of \<open>SafeFilename_tmp\<close>, and every codec stores the object it is given
  in the file it is given.
\<close>

definition plain_files :: "('o, 'c, 'ad) storage_ext \<Rightarrow> bool" where
  "plain_files ext =
     (locString ext = (\<lambda>location ad. location)
      \<and> SafeFilename ext = SafeFilename_tmp
      \<and> cPickle_dump ext = (\<lambda>obj path fs. write_file path obj fs)
      \<and> obj_save ext = (\<lambda>obj path fs. write_file path obj fs)
      \<and> obj_writeFits ext = (\<lambda>obj path ad fs. write_file path obj fs)
      \<and> persist ext = (\<lambda>name obj path ad fs. write_file path obj fs))"

section \<open>The traversal primitives\<close>

subsection \<open>The loops in closed form\<close>

lemma doSelfAndPeers_loop_closed:
  "doSelfAndPeers_loop func ps ret calls =
     (calls @ ps, ret @ concat (map (\<lambda>r. contribution (func r)) ps))"
proof (induction ps arbitrary: ret calls)
  case Nil
  show ?case by simp
next
  case (Cons p ps)
  show ?case
  proof (cases "func p")
    case None
    then show ?thesis using Cons by simp
  next
    case (Some res)
    then show ?thesis using Cons by (cases res) simp_all
  qed
qed

lemma doSelfAndPeers_closed:
  "doSelfAndPeers func self =
     (self # peers self,
      if concat (map (\<lambda>r. contribution (func r)) (self # peers self)) = [] then None
      else Some (Seq (concat (map (\<lambda>r. contribution (func r)) (self # peers self)))))"
proof -
  have ret0: "(case func self of None \<Rightarrow> [] | Some res \<Rightarrow> extend_or_append [] res) =
      contribution (func self)"
  proof (cases "func self")
    case None
    then show ?thesis by simp
  next
    case (Some res)
    then show ?thesis by (cases res) simp_all
  qed
  show ?thesis
    by (simp add: doSelfAndPeers_def ret0 doSelfAndPeers_loop_closed Let_def)
qed

lemma doParents_loop_outer:
  "join \<noteq> ''left'' \<Longrightarrow>
   doParents_loop func join ps ret calls =
     (calls @ concat (map (branch_calls func) ps),
      if ret @ List.map_filter (branch_result func) ps = [] then None
      else Some (Seq (ret @ List.map_filter (branch_result func) ps)))"
proof (induction ps arbitrary: ret calls)
  case Nil
  then show ?case by simp
next
  case (Cons p ps)
  show ?case
  proof (cases "func p")
    case None
    obtain pc pr where dp: "doParents func p = (pc, pr)" by (cases "doParents func p")
    show ?thesis
      using Cons None dp
      by (cases pr) (simp_all add: branch_calls_def branch_result_def)
  next
    case (Some res)
    then show ?thesis using Cons
      by (simp add: branch_calls_def branch_result_def)
  qed
qed

lemma doParents_loop_left:
  "doParents_loop func ''left'' ps [] calls =
     (calls @ concat (map (branch_calls func) (upto_first (\<lambda>p. branch_result func p \<noteq> None) ps)),
      first_result (branch_result func) ps)"
proof (induction ps arbitrary: calls)
  case Nil
  then show ?case by simp
next
  case (Cons p ps)
  show ?case
  proof (cases "func p")
    case None
    obtain pc pr where dp: "doParents func p = (pc, pr)" by (cases "doParents func p")
    show ?thesis
      using Cons None dp
      by (cases pr) (simp_all add: branch_calls_def branch_result_def)
  next
    case (Some res)
    then show ?thesis using Cons
      by (simp add: branch_calls_def branch_result_def)
  qed
qed

lemma first_result_append:
  "first_result f (xs @ ys) =
     (case first_result f xs of Some y \<Rightarrow> Some y | None \<Rightarrow> first_result f ys)"
  by (induction xs) (auto split: option.splits)

lemma upto_first_append:
  "upto_first (\<lambda>x. f x \<noteq> None) (xs @ ys) =
     (case first_result f xs of
        Some y \<Rightarrow> upto_first (\<lambda>x. f x \<noteq> None) xs
      | None \<Rightarrow> xs @ upto_first (\<lambda>x. f x \<noteq> None) ys)"
  by (induction xs) (auto split: option.splits)

lemma upto_first_none:
  "first_result f xs = None \<Longrightarrow> upto_first (\<lambda>x. f x \<noteq> None) xs = xs"
  by (induction xs) (auto split: option.splits)

text \<open>
  When every branch behaves as a first-match search of its own candidates, so does
  the sequence of the branches.
\<close>

lemma left_segments:
  assumes "\<And>p. p \<in> set ps \<Longrightarrow> branch_result func p = first_result func (p # ancestors p)"
    and "\<And>p. p \<in> set ps \<Longrightarrow>
           branch_calls func p = upto_first (\<lambda>c. func c \<noteq> None) (p # ancestors p)"
  shows "first_result (branch_result func) ps =
           first_result func (concat (map (\<lambda>p. p # ancestors p) ps))
    \<and> concat (map (branch_calls func) (upto_first (\<lambda>p. branch_result func p \<noteq> None) ps)) =
        upto_first (\<lambda>c. func c \<noteq> None) (concat (map (\<lambda>p. p # ancestors p) ps))"
  using assms
proof (induction ps)
  case Nil
  then show ?case by simp
next
  case (Cons p ps)
  have a: "branch_result func p = first_result func (p # ancestors p)"
    using Cons.prems by simp
  have b: "branch_calls func p = upto_first (\<lambda>c. func c \<noteq> None) (p # ancestors p)"
    using Cons.prems by simp
  have ih: "first_result (branch_result func) ps =
              first_result func (concat (map (\<lambda>p. p # ancestors p) ps))
    \<and> concat (map (branch_calls func) (upto_first (\<lambda>p. branch_result func p \<noteq> None) ps)) =
        upto_first (\<lambda>c. func c \<noteq> None) (concat (map (\<lambda>p. p # ancestors p) ps))"
    using Cons by simp
  show ?case
  proof (cases "first_result func (p # ancestors p)")
    case None
    then show ?thesis using a b ih
      by (simp add: first_result_append upto_first_append upto_first_none
          del: not_None_eq split: option.splits)
  next
    case (Some y)
    then show ?thesis using a b ih
      by (simp add: first_result_append upto_first_append
          del: not_None_eq split: option.splits)
  qed
qed

subsection \<open>Parent search under left join\<close>

text \<open>
  In a graph whose join modes are all 'left' the parent search is a first-match search
  along the candidates in depth-first declared order: it evaluates the operation up to
  and including the first candidate that yields, returns that result, and returns null
  when no candidate yields.
\<close>

lemma doParents_all_left:
  "all_left self \<Longrightarrow>
   doParents func self =
     (upto_first (yielding func) (ancestors self), first_result func (ancestors self))"
  unfolding yielding_def
proof (induction self)
  case (Repository m a ps prs i join)
  have j: "join = ''left''" using Repository.prems by simp
  have each: "\<And>p. p \<in> set ps \<Longrightarrow>
      doParents func p =
        (upto_first (\<lambda>c. func c \<noteq> None) (ancestors p), first_result func (ancestors p))"
    using Repository by simp
  have r: "\<And>p. p \<in> set ps \<Longrightarrow> branch_result func p = first_result func (p # ancestors p)"
    using each by (simp add: branch_result_def split: option.splits)
  have c: "\<And>p. p \<in> set ps \<Longrightarrow>
      branch_calls func p = upto_first (\<lambda>c. func c \<noteq> None) (p # ancestors p)"
    using each by (auto simp add: branch_calls_def split: option.splits)
  show ?case
    using left_segments[of ps func, OF r c] j
    by (simp add: doParents_loop_left)
qed

lemma doParents_all_left_example:
  "all_left repoL
   \<and> doParents (yields_at ''B'') repoL = ([repoQ, repoA, repoB], Some (Item 7))
   \<and> doParents (yields_at ''Z'') repoL = ([repoQ, repoA, repoB, repoB], None)"
proof -
  have l: "all_left repoL"
    by (simp add: repoL_def repoQ_def repoA_def repoB_def leaf_def)
  show ?thesis
    using l doParents_all_left[OF l, of "yields_at ''B''"] doParents_all_left[OF l, of "yields_at ''Z''"]
    by (simp add: repoL_def repoQ_def repoA_def repoB_def leaf_def yields_at_def yielding_def)
qed

text \<open>
  Claim C1: for every repository whose parentJoin is 'left' and every operation, the
  parent search visits the candidates in depth-first declared order, returns the
  first non-null result immediately and evaluates the operation on no candidate
  declared after it; this is also what the documentation of \<^verbatim>\<open>doParents\<close>
  says ("will return the return value of the first func that does not return None").
  The code does otherwise below an ancestor with join mode 'outer', because the
  recursive call runs with the join mode of the parent: \<open>repoD\<close> is a left-join
  repository, the first (and only) candidate on which the operation yields is
  \<open>repoA\<close>, with result \<open>Item 7\<close>; the search still evaluates the operation on
  \<open>repoB\<close>, declared after \<open>repoA\<close>, and returns the one-element list
  \<open>Seq [Item 7]\<close> that the outer-join search of \<open>repoP\<close> built.
\<close>

theorem doParents_left_below_outer:
  "parentJoin repoD = ''left''
   \<and> ancestors repoD = [repoP, repoA, repoB]
   \<and> first_result (yields_at ''A'') (ancestors repoD) = Some (Item 7)
   \<and> upto_first (yielding (yields_at ''A'')) (ancestors repoD) = [repoP, repoA]
   \<and> doParents (yields_at ''A'') repoD = ([repoP, repoA, repoB], Some (Seq [Item 7]))"
  by (simp add: repoD_def repoP_def repoA_def repoB_def leaf_def yields_at_def yielding_def)

subsection \<open>Parent search under outer join\<close>

text \<open>
  Claim C2: for every repository whose parentJoin is 'outer', the parent search
  returns the list of the non-null results of its top-level parent branches, one
  element per yielding branch (K elements for K yielding branches), in declared
  parent order, and null if no branch yields; in a branch the operation is evaluated
  on the parent, and the parent's own ancestors are searched only when the parent
  itself yielded null.
\<close>

theorem doParents_outer:
  "parentJoin self = ''outer'' \<Longrightarrow>
   doParents func self =
     (concat (map (\<lambda>p. p # (case func p of Some res \<Rightarrow> [] | None \<Rightarrow> fst (doParents func p)))
        (parents self)),
      if filter (yielding (branch_result func)) (parents self) = [] then None
      else Some (Seq (map (\<lambda>p. the (branch_result func p))
                        (filter (yielding (branch_result func)) (parents self)))))"
proof (cases self)
  case (Repository m a ps prs i join)
  assume "parentJoin self = ''outer''"
  then have j: "join \<noteq> ''left''" using Repository by simp
  have bc: "branch_calls func =
      (\<lambda>p. p # (case func p of Some res \<Rightarrow> [] | None \<Rightarrow> fst (doParents func p)))"
    by (rule ext) (simp add: branch_calls_def)
  show ?thesis
    using Repository doParents_loop_outer[OF j, of func ps "[]" "[]"]
    by (simp add: bc List.map_filter_def comp_def yielding_def del: not_None_eq)
qed

theorem doParents_outer_witness:
  "parentJoin repoP = ''outer''
   \<and> doParents yields_leaf repoP = ([repoA, repoB], Some (Seq [Item 1, Item 1]))
   \<and> doParents (yields_at ''B'') repoP = ([repoA, repoB], Some (Seq [Item 7]))
   \<and> doParents (yields_at ''Z'') repoP = ([repoA, repoB], None)"
proof -
  have j: "parentJoin repoP = ''outer''" by (simp add: repoP_def)
  show ?thesis
    using j doParents_outer[OF j, of yields_leaf] doParents_outer[OF j, of "yields_at ''B''"]
      doParents_outer[OF j, of "yields_at ''Z''"]
    by (simp add: repoP_def repoA_def repoB_def leaf_def yields_at_def yields_leaf_def
        branch_result_def yielding_def)
qed

subsection \<open>Fan-out over self and peers\<close>

text \<open>
  Claim C3: doSelfAndPeers evaluates the operation on self first and then on each
  peer in declared order; a non-null result that behaves as a sequence is flattened
  into the accumulator, any other non-null result is appended as one element; an
  empty accumulator gives null.  With no peers and a null result on self the result
  is null; with a three-element sequence on self and two peers with null results the
  result is the list of those three elements.
\<close>

theorem doSelfAndPeers_flatten:
  "doSelfAndPeers func self =
     (self # peers self,
      if concat (map (\<lambda>r. contribution (func r)) (self # peers self)) = [] then None
      else Some (Seq (concat (map (\<lambda>r. contribution (func r)) (self # peers self)))))
   \<and> (peers self = [] \<and> func self = None \<longrightarrow> snd (doSelfAndPeers func self) = None)
   \<and> (func self = Some (Seq [x, y, z]) \<and> peers self = [p1, p2] \<and> func p1 = None \<and> func p2 = None
        \<longrightarrow> snd (doSelfAndPeers func self) = Some (Seq [x, y, z]))"
  by (simp add: doSelfAndPeers_closed)

theorem doSelfAndPeers_flatten_witness:
  "peers repoA = [] \<and> yields_at ''Z'' repoA = None
   \<and> doSelfAndPeers (yields_at ''Z'') repoA = ([repoA], None)
   \<and> doSelfAndPeers
        (\<lambda>r. if ident r = Some ''S'' then Some (Seq [Item 1, Item 2, Item (3::nat)]) else None)
        (Repository None None [] [repoA, repoB] (Some ''S'') ''left'')
      = ([Repository None None [] [repoA, repoB] (Some ''S'') ''left'', repoA, repoB],
         Some (Seq [Item 1, Item 2, Item 3]))"
  using doSelfAndPeers_flatten[of "yields_at ''Z''" repoA]
    doSelfAndPeers_flatten[of
      "\<lambda>r. if ident r = Some ''S'' then Some (Seq [Item 1, Item 2, Item (3::nat)]) else None"
      "Repository None None [] [repoA, repoB] (Some ''S'') ''left''"]
  by (simp add: repoA_def repoB_def leaf_def yields_at_def)

subsection \<open>The repositories a parent search evaluates the operation on\<close>

lemma ancestors_smaller: "x \<in> set (ancestors r) \<Longrightarrow> size x < size r"
proof (induction r arbitrary: x)
  case (Repository m a ps prs i join)
  then obtain p where p: "p \<in> set ps" and x: "x = p \<or> x \<in> set (ancestors p)"
    by auto
  have "size p \<le> size_list size ps"
    using p by (simp add: size_list_estimation')
  then have "size p < size (Repository m a ps prs i join)"
    by simp
  moreover have "x \<in> set (ancestors p) \<Longrightarrow> size x < size p"
    using Repository.IH(1)[OF p] by simp
  ultimately show ?case using x by auto
qed

lemma doParents_calls:
  "set (fst (doParents func (r::('m,'a) repo))) \<subseteq> set (ancestors r)"
  "set (fst (doParents_loop func join (ps::('m,'a) repo list) ret calls)) \<subseteq>
     set calls \<union> (\<Union>p\<in>set ps. insert p (set (ancestors p)))"
proof (induction func r and func join ps ret calls rule: doParents_doParents_loop.induct)
  case (1 func m a ps prs i join)
  then show ?case by auto
next
  case (2 func join ret calls)
  then show ?case by simp
next
  case (3 func join parent rest ret calls)
  show ?case
  proof (cases "func parent")
    case None
    obtain pc pr where dp: "(pc, pr) = doParents func parent"
      by (cases "doParents func parent") auto
    have pcs: "set pc \<subseteq> set (ancestors parent)"
      using 3(1)[OF None] dp[symmetric] by simp
    show ?thesis
    proof (cases pr)
      case None': None
      show ?thesis
        using 3(2)[OF None dp None'] None dp[symmetric] None' pcs by auto
    next
      case (Some res)
      show ?thesis
      proof (cases "join = ''left''")
        case True
        then show ?thesis using None dp[symmetric] Some pcs by auto
      next
        case False
        then show ?thesis
          using 3(3)[OF None dp Some False] None dp[symmetric] Some pcs by auto
      qed
    qed
  next
    case (Some res)
    show ?thesis
    proof (cases "join = ''left''")
      case True
      then show ?thesis using Some by auto
    next
      case False
      then show ?thesis using 3(4)[OF Some False] Some by auto
    qed
  qed
qed

subsection \<open>Repository.map\<close>

lemma concat_single_results:
  "concat (map (\<lambda>r. case f r of None \<Rightarrow> [] | Some v \<Rightarrow> [v]) xs) = List.map_filter f xs"
  by (induction xs) (simp_all split: option.splits)

lemma contribution_doMap:
  "contribution (doMap mapper_map xargs kwargs r) =
     (case doMap mapper_map xargs kwargs r of None \<Rightarrow> [] | Some v \<Rightarrow> [v])"
  by (simp add: doMap_def split: option.splits)

text \<open>
  Claim C4, as stated: a call of Repository.map without a true write flag executes
  the parent search "so that reads address self and its ancestors".  The parent
  search never evaluates the operation on self: \<open>repoS\<close> has a mapper that maps the
  request, and no parents, and the read mapping through \<open>repoS\<close> evaluates the
  operation on no repository and returns null.
\<close>

theorem Repository_map_counterexample:
  "no_kwargs ''write'' \<noteq> Some KTrue
   \<and> doMap map_raw () no_kwargs repoS = Some (Item (''/t/S/raw'', repoS))
   \<and> Repository_map map_raw () no_kwargs repoS = ([], None)"
  by (simp add: Repository_map_def doMap_def map_raw_def repoS_def no_kwargs_def)

text \<open>
  Claim C4, amended: for every call to Repository.map, when the write flag is the
  value True it executes the self-and-peers fan-out (the operation is evaluated on
  self and then on every peer, and every non-null result is collected), and otherwise
  it executes the parent search, so that reads address the ancestors only: the
  operation is evaluated on ancestors of self and never on self.  No call mixes the
  two traversal kinds.
\<close>

theorem Repository_map_traversals:
  "(kwargs ''write'' = Some KTrue \<longrightarrow>
      Repository_map mapper_map xargs kwargs self =
        (self # peers self,
         if List.map_filter (doMap mapper_map xargs kwargs) (self # peers self) = [] then None
         else Some (Seq (List.map_filter (doMap mapper_map xargs kwargs) (self # peers self)))))
   \<and> (kwargs ''write'' \<noteq> Some KTrue \<longrightarrow>
      Repository_map mapper_map xargs kwargs self = doParents (doMap mapper_map xargs kwargs) self
      \<and> set (fst (Repository_map mapper_map xargs kwargs self)) \<subseteq> set (ancestors self)
      \<and> self \<notin> set (fst (Repository_map mapper_map xargs kwargs self)))"
proof -
  let ?f = "doMap mapper_map xargs kwargs"
  have w: "doSelfAndPeers ?f self =
        (self # peers self,
         if List.map_filter ?f (self # peers self) = [] then None
         else Some (Seq (List.map_filter ?f (self # peers self))))"
  proof -
    have "concat (map (\<lambda>r. contribution (?f r)) (self # peers self)) =
        List.map_filter ?f (self # peers self)"
      unfolding contribution_doMap by (rule concat_single_results)
    then show ?thesis
      using doSelfAndPeers_closed[of ?f self] by simp
  qed
  have sub: "set (fst (doParents ?f self)) \<subseteq> set (ancestors self)"
    by (rule doParents_calls(1))
  have "self \<notin> set (ancestors self)"
    using ancestors_smaller[of self self] by auto
  then have notself: "self \<notin> set (fst (doParents ?f self))"
    using sub by auto
  show ?thesis
    using w sub notself by (simp add: Repository_map_def)
qed

theorem Repository_map_traversals_witness:
  "write_kwargs KTrue ''write'' = Some KTrue
   \<and> Repository_map map_raw () (write_kwargs KTrue) repoS =
       ([repoS], Some (Seq [Item (''/t/S/raw'', repoS)]))
   \<and> write_kwargs KFalse ''write'' \<noteq> Some KTrue
   \<and> Repository_map map_raw () (write_kwargs KFalse) repoT =
       ([repoS], Some (Item (''/t/S/raw'', repoS)))"
  using Repository_map_traversals[of "write_kwargs KTrue" map_raw "()" repoS]
    Repository_map_traversals[of "write_kwargs KFalse" map_raw "()" repoT]
  by (simp add: doMap_def map_raw_def repoS_def repoT_def write_kwargs_def)

section \<open>The configuration binder\<close>

lemma getFuncArgs_loop_closed:
  "getFuncArgs_loop as required cfg ign ret =
     (case missing as required cfg ign of
        [] \<Rightarrow> Inr (ret ++ (cfg |` (set as - set ign)))
      | a # _ \<Rightarrow> Inl (RuntimeError (''Missing argument:'' @ a)))"
proof (induction as arbitrary: ret)
  case Nil
  then show ?case by (simp add: missing_def)
next
  case (Cons a as)
  show ?case
  proof (cases "a \<in> set ign")
    case True
    have "insert a (set as) - set ign = set as - set ign" using True by auto
    then show ?thesis using True Cons by (simp add: missing_def split: list.splits)
  next
    case False
    show ?thesis
    proof (cases "cfg a")
      case None
      have "cfg |` (insert a (set as) - set ign) = cfg |` (set as - set ign)"
        using None by (auto simp add: restrict_map_def fun_eq_iff)
      then show ?thesis using False None Cons by (simp add: missing_def split: list.splits)
    next
      case (Some v)
      have "\<And>ret. ret(a \<mapsto> v) ++ (cfg |` (set as - set ign)) =
               ret ++ (cfg |` (insert a (set as) - set ign))"
        using Some False
        by (auto simp add: restrict_map_def map_add_def fun_eq_iff split: option.splits)
      then show ?thesis using False Some Cons by (simp add: missing_def split: list.splits)
    qed
  qed
qed

lemma requiredArgs_lacking:
  assumes "case defaults argSpec of None \<Rightarrow> True | Some ds \<Rightarrow> length ds \<le> length (args argSpec)"
  shows "requiredArgs argSpec = lacking_default argSpec"
proof (cases "defaults argSpec")
  case None
  then show ?thesis by (simp add: requiredArgs_def lacking_default_def)
next
  case (Some ds)
  have "nat (int (length (args argSpec)) - int (length ds)) = length (args argSpec) - length ds"
    by arith
  then show ?thesis using Some assms
    by (simp add: requiredArgs_def lacking_default_def slice_to_def)
qed

text \<open>
  Claim C6: given the declared parameter names of a callable (with no more defaults
  than parameters, as \<^verbatim>\<open>inspect.getargspec\<close> returns them) and a configuration
  mapping, the binder fails, with the RuntimeError that the specification calls
  ConfigurationError, if and only if some parameter lacking a default value and not
  in the ignore-set is absent from the mapping; otherwise it returns exactly the
  submap of the configuration on the parameter names that are not in the ignore-set.
\<close>

theorem getFuncArgs_binds:
  assumes "case defaults argSpec of None \<Rightarrow> True | Some ds \<Rightarrow> length ds \<le> length (args argSpec)"
  shows "if \<exists>a \<in> set (lacking_default argSpec). a \<notin> set ign \<and> cfg a = None
         then \<exists>a \<in> set (lacking_default argSpec). a \<notin> set ign \<and> cfg a = None \<and>
                getFuncArgs argSpec cfg ign = Inl (RuntimeError (''Missing argument:'' @ a))
         else getFuncArgs argSpec cfg ign = Inr (cfg |` (set (args argSpec) - set ign))"
proof -
  have req: "requiredArgs argSpec = lacking_default argSpec"
    using assms by (rule requiredArgs_lacking)
  have sub: "set (lacking_default argSpec) \<subseteq> set (args argSpec)"
    by (simp add: lacking_default_def set_take_subset)
  let ?ms = "missing (args argSpec) (lacking_default argSpec) cfg ign"
  have ms: "set ?ms = {a \<in> set (lacking_default argSpec). a \<notin> set ign \<and> cfg a = None}"
    using sub by (auto simp add: missing_def)
  show ?thesis
  proof (cases ?ms)
    case Nil
    then have "\<not> (\<exists>a \<in> set (lacking_default argSpec). a \<notin> set ign \<and> cfg a = None)"
      using ms by auto
    then show ?thesis using Nil
      by (simp add: getFuncArgs_def req getFuncArgs_loop_closed)
  next
    case (Cons a rest)
    then have "a \<in> set ?ms" by simp
    then have a: "a \<in> set (lacking_default argSpec) \<and> a \<notin> set ign \<and> cfg a = None"
      using ms by blast
    have "getFuncArgs argSpec cfg ign = Inl (RuntimeError (''Missing argument:'' @ a))"
      using Cons by (simp add: getFuncArgs_def req getFuncArgs_loop_closed)
    then show ?thesis using a by auto
  qed
qed

theorem getFuncArgs_binds_witness:
  "(case defaults PosixStorage_init_spec of None \<Rightarrow> True
    | Some ds \<Rightarrow> length ds \<le> length (args PosixStorage_init_spec))
   \<and> (case defaults mapper_init_spec of None \<Rightarrow> True
    | Some ds \<Rightarrow> length ds \<le> length (args mapper_init_spec))
   \<and> getFuncArgs PosixStorage_init_spec root_cfg defaultArgsToIgnore =
       Inr (root_cfg |` ({''self'', ''root''} - {''self'', ''cls''}))
   \<and> (root_cfg |` ({''self'', ''root''} - {''self'', ''cls''})) ''root'' = Some ''/t/A''
   \<and> (root_cfg |` ({''self'', ''root''} - {''self'', ''cls''})) ''id'' = None
   \<and> getFuncArgs mapper_init_spec root_cfg defaultArgsToIgnore =
       Inl (RuntimeError ''Missing argument:policy'')"
proof -
  have h1: "case defaults PosixStorage_init_spec of None \<Rightarrow> True
    | Some ds \<Rightarrow> length ds \<le> length (args PosixStorage_init_spec)"
    by (simp add: PosixStorage_init_spec_def)
  have h2: "case defaults mapper_init_spec of None \<Rightarrow> True
    | Some ds \<Rightarrow> length ds \<le> length (args mapper_init_spec)"
    by (simp add: mapper_init_spec_def)
  show ?thesis
    using h1 h2 getFuncArgs_binds[OF h1, of defaultArgsToIgnore root_cfg]
      getFuncArgs_binds[OF h2, of defaultArgsToIgnore root_cfg]
    by (auto simp add: PosixStorage_init_spec_def mapper_init_spec_def defaultArgsToIgnore_def
        lacking_default_def root_cfg_def)
qed

section \<open>Repository.__init__\<close>

text \<open>
  Claim C7: materializing a RepoConfig whose parentJoin is not one of 'left' and
  'outer' fails with the RuntimeError that the specification calls
  ConfigurationError.  The constructor reaches its \<^verbatim>\<open>raise RuntimeError(...)\<close>
  statement, and building the message of the exception fails first: the constructor,
  and with it the materialization of the configuration, ends with an AttributeError.
\<close>

theorem Repository_init_parentJoin:
  "Repository_init None None None None None ''inner'' =
     (Inl (AttributeError ''_parentJoin'') :: error + (unit, unit) repo)
   \<and> makeFromCfg ext_example (VDict innerJoinCfg) = Inl (AttributeError ''_parentJoin'')"
  by (simp add: Repository_init_def supportedParentJoin_def parentJoin_message_def
      innerJoinCfg_def materialize_access_def materialize_mapper_def instantiate_def
      call_Repository_def)

section \<open>The materializer\<close>

lemma materialize_access_frame:
  "materialize_access ext cfg kw = Inr s \<Longrightarrow> k \<noteq> ''access'' \<Longrightarrow> map_of (fst s) k = map_of cfg k"
  by (auto simp add: materialize_access_def update_conv' split: option.splits cfgval.splits sum.splits)

lemma materialize_access_entry:
  "materialize_access ext cfg kw = Inr s \<Longrightarrow> map_of cfg ''access'' = Some (VAccess a) \<Longrightarrow>
     \<exists>a'. access_makeFromCfg ext a cfg = Inr a' \<and> map_of (fst s) ''access'' = Some (VAccess a')"
  by (auto simp add: materialize_access_def update_conv' split: sum.splits)

lemma materialize_mapper_frame:
  "materialize_mapper ext cfg kw = Inr s \<Longrightarrow> k \<noteq> ''mapper'' \<Longrightarrow> map_of (fst s) k = map_of cfg k"
  by (auto simp add: materialize_mapper_def default_mapper_def update_conv'
      split: option.splits cfgval.splits sum.splits)

lemma materialize_mapper_entry:
  "materialize_mapper ext cfg kw = Inr s \<Longrightarrow> map_of cfg ''mapper'' = Some (VMapper m) \<Longrightarrow>
     \<exists>m'. mapper_makeFromCfg ext m cfg = Inr m' \<and> map_of (fst s) ''mapper'' = Some (VMapper m')"
  by (auto simp add: materialize_mapper_def default_mapper_def update_conv' split: sum.splits)

lemma entries_step:
  assumes "(case map_of (fst s) key of
              None \<Rightarrow> Inr s
            | Some v \<Rightarrow>
                (case makeFromCfg_entries ext (as_list v) of
                   Inl e \<Rightarrow> Inl e
                 | Inr rs \<Rightarrow> Inr (store_entries key rs s))) = Inr s'"
  shows "(\<forall>k. k \<noteq> key \<longrightarrow> map_of (fst s') k = map_of (fst s) k)
    \<and> (\<forall>v. map_of (fst s) key = Some v \<longrightarrow>
          (\<exists>rs. makeFromCfg_entries ext (as_list v) = Inr rs \<and>
                map_of (fst s') key = Some (VList rs)))"
  using assms
  by (auto simp add: store_entries_def update_conv' split: option.splits sum.splits)

lemma instantiate_entry:
  assumes "instantiate cfg kw = Inr (cfg', r)"
  shows "\<exists>d'. cfg' = VDict d' \<and> map_of d' ''repository'' = Some r
    \<and> (\<forall>k. k \<noteq> ''repository'' \<longrightarrow> map_of d' k = map_of cfg k)
    \<and> (map_of cfg ''repository'' = Some VRepositoryClass \<longrightarrow> (\<exists>repo. r = VRepository repo))"
  using assms
  by (auto simp add: instantiate_def Let_def update_conv' split: option.splits cfgval.splits sum.splits)

lemma makeFromCfg_single:
  "makeFromCfg_entries ext [v] = Inr rs \<Longrightarrow> \<exists>c r. makeFromCfg ext v = Inr (c, r) \<and> rs = [r]"
  by (auto split: sum.splits)

text \<open>
  Claim C9: Repository.makeFromCfg updates the configuration mapping it is given.
  After a successful call on a dict, the entry 'repository' holds the object returned
  (a live Repository when the entry was the class), the entries 'access' and 'mapper'
  hold the objects their makeFromCfg returned, and the entries 'parents' and 'peers',
  where present, hold the list of the values makeFromCfg returned for the declared
  entries: a one-element list when a single configuration was declared.  The
  declarative values of these entries are gone from the mapping.
\<close>

theorem makeFromCfg_mutates_cfg:
  assumes "makeFromCfg ext (VDict cfg) = Inr (cfg', r)"
  shows "\<exists>d'. cfg' = VDict d'
     \<and> map_of d' ''repository'' = Some r
     \<and> (map_of cfg ''repository'' = Some VRepositoryClass \<longrightarrow> (\<exists>repo. r = VRepository repo))
     \<and> (\<forall>a. map_of cfg ''access'' = Some (VAccess a) \<longrightarrow>
           (\<exists>a'. access_makeFromCfg ext a cfg = Inr a' \<and> map_of d' ''access'' = Some (VAccess a')))
     \<and> (\<forall>m. map_of cfg ''mapper'' = Some (VMapper m) \<longrightarrow>
           (\<exists>m' c. mapper_makeFromCfg ext m c = Inr m' \<and> map_of d' ''mapper'' = Some (VMapper m')))
     \<and> (\<forall>key v. key \<in> {''parents'', ''peers''} \<and> map_of cfg key = Some v \<longrightarrow>
           (\<exists>rs. makeFromCfg_entries ext (as_list v) = Inr rs \<and> map_of d' key = Some (VList rs)))
     \<and> (\<forall>key p. key \<in> {''parents'', ''peers''} \<and> map_of cfg key = Some (VDict p) \<longrightarrow>
           (\<exists>c1 r1. makeFromCfg ext (VDict p) = Inr (c1, r1) \<and> map_of d' key = Some (VList [r1])))"
proof -
  obtain s1 s2 s3 s4 where
    A: "materialize_access ext cfg Map.empty = Inr s1" and
    M: "materialize_mapper ext (fst s1) (snd s1) = Inr s2" and
    P: "(case map_of (fst s2) ''parents'' of
              None \<Rightarrow> Inr s2
            | Some v \<Rightarrow>
                (case makeFromCfg_entries ext (as_list v) of
                   Inl e \<Rightarrow> Inl e
                 | Inr rs \<Rightarrow> Inr (store_entries ''parents'' rs s2))) = Inr s3" and
    Q: "(case map_of (fst s3) ''peers'' of
              None \<Rightarrow> Inr s3
            | Some v \<Rightarrow>
                (case makeFromCfg_entries ext (as_list v) of
                   Inl e \<Rightarrow> Inl e
                 | Inr rs \<Rightarrow> Inr (store_entries ''peers'' rs s3))) = Inr s4" and
    I: "instantiate (fst s4) (snd s4) = Inr (cfg', r)"
    using assms by (simp split: sum.splits)
  note fa = materialize_access_frame[OF A]
  note fm = materialize_mapper_frame[OF M]
  note ep = entries_step[OF P]
  note eq = entries_step[OF Q]
  obtain d' where d': "cfg' = VDict d'" and rep: "map_of d' ''repository'' = Some r"
    and fi: "\<And>k. k \<noteq> ''repository'' \<Longrightarrow> map_of d' k = map_of (fst s4) k"
    and cls: "map_of (fst s4) ''repository'' = Some VRepositoryClass \<Longrightarrow> \<exists>repo. r = VRepository repo"
    using instantiate_entry[OF I] by blast
  have repo0: "map_of (fst s4) ''repository'' = map_of cfg ''repository''"
    using fa fm ep eq by simp
  have acc: "\<And>a. map_of cfg ''access'' = Some (VAccess a) \<Longrightarrow>
      \<exists>a'. access_makeFromCfg ext a cfg = Inr a' \<and> map_of d' ''access'' = Some (VAccess a')"
  proof -
    fix a assume "map_of cfg ''access'' = Some (VAccess a)"
    then obtain a' where "access_makeFromCfg ext a cfg = Inr a'"
      and "map_of (fst s1) ''access'' = Some (VAccess a')"
      using materialize_access_entry[OF A] by blast
    moreover have "map_of d' ''access'' = map_of (fst s1) ''access''"
      using fi fm ep eq by simp
    ultimately show "\<exists>a'. access_makeFromCfg ext a cfg = Inr a' \<and> map_of d' ''access'' = Some (VAccess a')"
      by simp
  qed
  have mp: "\<And>m. map_of cfg ''mapper'' = Some (VMapper m) \<Longrightarrow>
      \<exists>m' c. mapper_makeFromCfg ext m c = Inr m' \<and> map_of d' ''mapper'' = Some (VMapper m')"
  proof -
    fix m assume "map_of cfg ''mapper'' = Some (VMapper m)"
    then have "map_of (fst s1) ''mapper'' = Some (VMapper m)" using fa by simp
    then obtain m' where "mapper_makeFromCfg ext m (fst s1) = Inr m'"
      and "map_of (fst s2) ''mapper'' = Some (VMapper m')"
      using materialize_mapper_entry[OF M] by blast
    moreover have "map_of d' ''mapper'' = map_of (fst s2) ''mapper''"
      using fi ep eq by simp
    ultimately show "\<exists>m' c. mapper_makeFromCfg ext m c = Inr m' \<and> map_of d' ''mapper'' = Some (VMapper m')"
      by auto
  qed
  have ents: "\<And>key v. key \<in> {''parents'', ''peers''} \<Longrightarrow> map_of cfg key = Some v \<Longrightarrow>
      \<exists>rs. makeFromCfg_entries ext (as_list v) = Inr rs \<and> map_of d' key = Some (VList rs)"
  proof -
    fix key v assume k: "key \<in> {''parents'', ''peers''}" and v: "map_of cfg key = Some v"
    show "\<exists>rs. makeFromCfg_entries ext (as_list v) = Inr rs \<and> map_of d' key = Some (VList rs)"
    proof (cases "key = ''parents''")
      case True
      have "map_of (fst s2) ''parents'' = Some v" using v True fa fm by simp
      then obtain rs where "makeFromCfg_entries ext (as_list v) = Inr rs"
        and "map_of (fst s3) ''parents'' = Some (VList rs)" using ep by blast
      moreover have "map_of d' ''parents'' = map_of (fst s3) ''parents''" using fi eq by simp
      ultimately show ?thesis using True by simp
    next
      case False
      then have kp: "key = ''peers''" using k by simp
      have "map_of (fst s3) ''peers'' = Some v" using v kp fa fm ep by simp
      then obtain rs where "makeFromCfg_entries ext (as_list v) = Inr rs"
        and "map_of (fst s4) ''peers'' = Some (VList rs)" using eq by blast
      moreover have "map_of d' ''peers'' = map_of (fst s4) ''peers''" using fi by simp
      ultimately show ?thesis using kp by simp
    qed
  qed
  have single: "\<And>key p. key \<in> {''parents'', ''peers''} \<Longrightarrow> map_of cfg key = Some (VDict p) \<Longrightarrow>
      \<exists>c1 r1. makeFromCfg ext (VDict p) = Inr (c1, r1) \<and> map_of d' key = Some (VList [r1])"
  proof -
    fix key p assume k: "key \<in> {''parents'', ''peers''}" and v: "map_of cfg key = Some (VDict p)"
    obtain rs where rs: "makeFromCfg_entries ext (as_list (VDict p)) = Inr rs"
      and d: "map_of d' key = Some (VList rs)"
      using ents[OF k v] by blast
    have "makeFromCfg_entries ext [VDict p] = Inr rs" using rs by simp
    then obtain c r1 where "makeFromCfg ext (VDict p) = Inr (c, r1)" and "rs = [r1]"
      using makeFromCfg_single by blast
    then show "\<exists>c1 r1. makeFromCfg ext (VDict p) = Inr (c1, r1) \<and> map_of d' key = Some (VList [r1])"
      using d by blast
  qed
  have c3: "map_of cfg ''repository'' = Some VRepositoryClass \<longrightarrow> (\<exists>repo. r = VRepository repo)"
    using cls repo0 by simp
  have c4: "\<forall>a. map_of cfg ''access'' = Some (VAccess a) \<longrightarrow>
           (\<exists>a'. access_makeFromCfg ext a cfg = Inr a' \<and> map_of d' ''access'' = Some (VAccess a'))"
    using acc by blast
  have c5: "\<forall>m. map_of cfg ''mapper'' = Some (VMapper m) \<longrightarrow>
           (\<exists>m' c. mapper_makeFromCfg ext m c = Inr m' \<and> map_of d' ''mapper'' = Some (VMapper m'))"
    using mp by blast
  have c6: "\<forall>key v. key \<in> {''parents'', ''peers''} \<and> map_of cfg key = Some v \<longrightarrow>
           (\<exists>rs. makeFromCfg_entries ext (as_list v) = Inr rs \<and> map_of d' key = Some (VList rs))"
    using ents by blast
  have c7: "\<forall>key p. key \<in> {''parents'', ''peers''} \<and> map_of cfg key = Some (VDict p) \<longrightarrow>
           (\<exists>c1 r1. makeFromCfg ext (VDict p) = Inr (c1, r1) \<and> map_of d' key = Some (VList [r1]))"
    using single by blast
  show ?thesis
    by (intro exI[of _ d'] conjI) (rule d' rep c3 c4 c5 c6 c7)+
qed

theorem makeFromCfg_mutates_cfg_witness:
  "makeFromCfg ext_example (VDict repoBCfg) = Inr (VDict repoBCfg_after, VRepository repoB')
   \<and> map_of repoBCfg ''repository'' = Some VRepositoryClass
   \<and> map_of repoBCfg_after ''repository'' = Some (VRepository repoB')
   \<and> map_of repoBCfg ''access'' = Some (VAccess ''Access'')
   \<and> map_of repoBCfg_after ''access'' = Some (VAccess ''Access()'')
   \<and> map_of repoBCfg ''mapper'' = Some (VMapper ''ChildrenMapper'')
   \<and> map_of repoBCfg_after ''mapper'' = Some (VMapper ''ChildrenMapper()'')
   \<and> map_of repoBCfg ''parents'' = Some (VDict inputRepoCfg)
   \<and> map_of repoBCfg_after ''parents'' = Some (VList [VRepository inputRepo])"
proof -
  have run: "makeFromCfg ext_example (VDict repoBCfg) =
      Inr (VDict repoBCfg_after, VRepository repoB')"
    by (simp add: ext_example_def repoBCfg_def repoBCfg_after_def repoB'_def inputRepoCfg_def
        inputRepo_def materialize_access_def materialize_mapper_def default_mapper_def instantiate_def
        call_Repository_def Repository_init_def supportedParentJoin_def store_entries_def)
  have "\<exists>d'. VDict repoBCfg_after = VDict d' \<and> map_of d' ''repository'' = Some (VRepository repoB')"
    using makeFromCfg_mutates_cfg[OF run] by - (elim exE conjE, intro exI conjI, assumption+)
  then have after: "map_of repoBCfg_after ''repository'' = Some (VRepository repoB')"
    by simp
  have before: "map_of repoBCfg ''repository'' = Some VRepositoryClass
     \<and> map_of repoBCfg ''access'' = Some (VAccess ''Access'')
     \<and> map_of repoBCfg ''mapper'' = Some (VMapper ''ChildrenMapper'')
     \<and> map_of repoBCfg ''parents'' = Some (VDict inputRepoCfg)"
    by (simp add: repoBCfg_def)
  have others: "map_of repoBCfg_after ''access'' = Some (VAccess ''Access()'')
     \<and> map_of repoBCfg_after ''mapper'' = Some (VMapper ''ChildrenMapper()'')
     \<and> map_of repoBCfg_after ''parents'' = Some (VList [VRepository inputRepo])"
    by (simp add: repoBCfg_after_def)
  show ?thesis
    using run after before others by simp
qed

section \<open>Repository descriptors\<close>

lemma makedirs_files: "makedirs d fs = Inr fs1 \<Longrightarrow> files fs1 = files fs"
  by (auto simp add: makedirs_def split: if_splits)

lemma write_file_files: "write_file p c fs = Inr fs2 \<Longrightarrow> files fs2 = (files fs)(p \<mapsto> c)"
  by (auto simp add: write_file_def split: if_splits)

lemma butlerWrite_loop_files:
  "butlerWrite_loop loc obj ad ls fs = Inr fs' \<Longrightarrow>
     (\<forall>p. files fs p = Some obj \<longrightarrow> files fs' p = Some obj)
     \<and> (\<forall>l\<in>set ls. files fs' (loc l ad) = Some obj)"
proof (induction ls arbitrary: fs)
  case Nil
  then show ?case by simp
next
  case (Cons l ls)
  from Cons.prems obtain fs1 fs2 where
    m: "(if \<not> path_exists (dirname (loc l ad)) fs
            then makedirs (dirname (loc l ad)) fs else Inr fs) = Inr fs1"
    and w: "write_file (loc l ad) obj fs1 = Inr fs2"
    and r: "butlerWrite_loop loc obj ad ls fs2 = Inr fs'"
    by (auto split: sum.splits)
  have f1: "files fs1 = files fs"
    using m makedirs_files by (auto split: if_splits)
  have f2: "files fs2 = (files fs)(loc l ad \<mapsto> obj)"
    using w write_file_files f1 by fastforce
  have ih: "(\<forall>p. files fs2 p = Some obj \<longrightarrow> files fs' p = Some obj)
     \<and> (\<forall>l\<in>set ls. files fs' (loc l ad) = Some obj)"
    using Cons.IH[OF r] .
  show ?case using ih f2 by simp
qed

lemma butlerRead_loop_all:
  "\<forall>l\<in>set ls. files fs (loc l ad) = Some obj \<Longrightarrow>
   butlerRead_loop loc ad ls fs ret =
     Inr (ret @ map (\<lambda>l. obj(''root'' \<mapsto> YStr (dirname l))) ls)"
  by (induction ls arbitrary: ret) (simp_all add: read_file_def)

lemma dirname_A: "dirname ''/t/A/repoCfg.yaml'' = ''/t/A''"
  by (simp add: dirname_def)

lemma prefixes_A: "path_prefixes ''/t/A'' = [''/t'', ''/t/A'']"
  by code_simp

lemma write_A: "RepositoryCfg_butlerWrite plain_loc cfg_doc cfg_location empty_fs = Inr fs_A"
  by (simp add: RepositoryCfg_butlerWrite_def cfg_location_def empty_fs_def fs_A_def plain_loc_def
      dirname_A prefixes_A path_exists_def makedirs_def write_file_def insert_commute)

text \<open>
  Claim C5, as stated: writing a repository descriptor persists the serialized
  RepoConfig plus a derived 'root' field equal to the directory portion of the write
  location, injected at write time.  The descriptor \<open>cfg_doc\<close> written to
  \<^verbatim>\<open>/t/A/repoCfg.yaml\<close> is stored as it is: the file has no 'root' field.
\<close>

theorem RepositoryCfg_butlerWrite_counterexample:
  "RepositoryCfg_butlerWrite plain_loc cfg_doc cfg_location empty_fs = Inr fs_A
   \<and> files fs_A ''/t/A/repoCfg.yaml'' = Some cfg_doc
   \<and> dirname ''/t/A/repoCfg.yaml'' = ''/t/A''
   \<and> cfg_doc ''root'' = None"
  by (simp add: write_A dirname_A) (simp add: fs_A_def cfg_doc_def)

text \<open>
  Claim C5, amended: writing a repository descriptor persists exactly the serialized
  RepoConfig at every location (no field is added at write time); reading a
  descriptor adds a 'root' field equal to the directory portion of the location read.
  So reading the written descriptor back from the location it was written to yields a
  configuration whose root equals the original write directory.
\<close>

theorem RepositoryCfg_round_trip:
  assumes "RepositoryCfg_butlerWrite loc obj butlerLocation fs = Inr fs'"
  shows "(\<forall>l\<in>set (locations butlerLocation).
            files fs' (loc l (additionalData butlerLocation)) = Some obj)
    \<and> RepositoryCfg_butlerRead loc butlerLocation fs' =
        Inr (map (\<lambda>l. obj(''root'' \<mapsto> YStr (dirname l))) (locations butlerLocation))"
proof -
  have y: "storageName butlerLocation = ''YamlStorage''"
    using assms by (auto simp add: RepositoryCfg_butlerWrite_def split: if_splits)
  then have "butlerWrite_loop loc obj (additionalData butlerLocation) (locations butlerLocation) fs = Inr fs'"
    using assms by (simp add: RepositoryCfg_butlerWrite_def)
  then have all: "\<forall>l\<in>set (locations butlerLocation).
            files fs' (loc l (additionalData butlerLocation)) = Some obj"
    by (rule butlerWrite_loop_files[THEN conjunct2])
  then show ?thesis
    using y butlerRead_loop_all[of "locations butlerLocation" fs' loc "additionalData butlerLocation" obj "[]"]
    by (simp add: RepositoryCfg_butlerRead_def)
qed

theorem RepositoryCfg_round_trip_witness:
  "RepositoryCfg_butlerWrite plain_loc cfg_doc cfg_location empty_fs = Inr fs_A
   \<and> files fs_A ''/t/A/repoCfg.yaml'' = Some cfg_doc
   \<and> RepositoryCfg_butlerRead plain_loc cfg_location fs_A =
       Inr [cfg_doc(''root'' \<mapsto> YStr ''/t/A'')]"
  using write_A RepositoryCfg_round_trip[OF write_A]
  by (simp add: cfg_location_def plain_loc_def dirname_A)

section \<open>PosixStorage\<close>

lemma read_loop_stops:
  assumes "\<forall>l'\<in>set pre. \<exists>item. read_item ext pt name ad l' fs = Inr item"
    and "read_item ext pt name ad l fs = Inl e"
  shows "read_loop ext pt name ad (pre @ l # post) fs results = Inl e"
  using assms
proof (induction pre arbitrary: results)
  case Nil
  then show ?case by simp
next
  case (Cons p pre)
  then obtain item where "read_item ext pt name ad p fs = Inr item" by auto
  then show ?case using Cons by simp
qed

lemma read_loop_length:
  "read_loop ext pt name ad ls fs results = Inr objs \<Longrightarrow>
     length objs = length results + length ls"
proof (induction ls arbitrary: results)
  case Nil
  then show ?case by simp
next
  case (Cons l ls)
  then show ?case by (auto split: sum.splits)
qed

lemma read_item_missing:
  assumes "no_such name = Some msg" and "\<not> path_exists (locString ext l ad) fs"
  shows "read_item ext pt name ad l fs = Inl (RuntimeError (msg @ locString ext l ad))"
  using assms by (auto simp add: no_such_def read_item_def Let_def split: if_splits)

lemma not_self_reading:
  assumes "\<not> self_reading ext bl" and "read_pythonType ext (pythonType bl) = Inr pt"
  shows "(case pt of None \<Rightarrow> None | Some c \<Rightarrow> butlerRead_of ext c) = None"
  using assms by (auto simp add: self_reading_def split: option.splits)

text \<open>
  Claim C8, as stated: for every storage discriminator that requires the target to
  exist, read(location) fails with NotFoundError when the resolved path does not exist.
  A location of storage PickleStorage whose python type is \<^verbatim>\<open>RepositoryCfg\<close> is
  read by \<^verbatim>\<open>RepositoryCfg.butlerRead\<close>, which raises NotImplementedError, whether
  the path exists or not.
\<close>

theorem PosixStorage_read_counterexample:
  "no_such (storageName pickle_cfg_location) = Some ''No such pickle file: ''
   \<and> locations pickle_cfg_location = [''/t/A/cfg.pickle'']
   \<and> \<not> path_exists (locString ext_files ''/t/A/cfg.pickle'' ()) empty_fs
   \<and> PosixStorage_read ext_files pickle_cfg_location empty_fs =
       Inl (NotImplementedError ''RepositoryCfg only supports YamlStorage'')"
  by (simp add: no_such_def pickle_cfg_location_def ext_files_def plain_loc_def path_exists_def
      empty_fs_def PosixStorage_read_def read_pythonType_def RepositoryCfg_butlerRead_def)

text \<open>
  Claim C8, amended: for every storage discriminator that requires the target to exist
  (PickleStorage, FitsCatalogStorage, ConfigStorage), when the python type of the
  location resolves and has no butlerRead of its own, read(location) fails with the
  RuntimeError "No such ... file" that the specification calls NotFoundError, at the
  first location whose resolved path does not exist, provided the locations before it
  were read.
\<close>

theorem PosixStorage_read_not_found:
  assumes "read_pythonType ext (pythonType butlerLocation) = Inr pt"
    and "\<not> self_reading ext butlerLocation"
    and "no_such (storageName butlerLocation) = Some msg"
    and "locations butlerLocation = pre @ l # post"
    and "\<forall>l'\<in>set pre. \<exists>item.
           read_item ext pt (storageName butlerLocation) (additionalData butlerLocation) l' fs =
             Inr item"
    and "\<not> path_exists (locString ext l (additionalData butlerLocation)) fs"
  shows "PosixStorage_read ext butlerLocation fs =
           Inl (RuntimeError (msg @ locString ext l (additionalData butlerLocation)))"
proof -
  have cap: "(case pt of None \<Rightarrow> None | Some c \<Rightarrow> butlerRead_of ext c) = None"
    using assms(2) assms(1) by (rule not_self_reading)
  have item: "read_item ext pt (storageName butlerLocation) (additionalData butlerLocation) l fs =
      Inl (RuntimeError (msg @ locString ext l (additionalData butlerLocation)))"
    using assms(3) assms(6) by (rule read_item_missing)
  have "read_loop ext pt (storageName butlerLocation) (additionalData butlerLocation)
          (pre @ l # post) fs [] =
      Inl (RuntimeError (msg @ locString ext l (additionalData butlerLocation)))"
    using assms(5) item by (rule read_loop_stops)
  then show ?thesis
    using assms(1) assms(4) cap by (simp add: PosixStorage_read_def)
qed

theorem PosixStorage_read_not_found_witness:
  "read_pythonType ext_files (pythonType (pickle_location [''/t/a.pickle''])) = Inr (Some ''lsst.Obj'')
   \<and> \<not> self_reading ext_files (pickle_location [''/t/a.pickle''])
   \<and> no_such (storageName (pickle_location [''/t/a.pickle''])) = Some ''No such pickle file: ''
   \<and> \<not> path_exists (locString ext_files ''/t/a.pickle'' ()) empty_fs
   \<and> PosixStorage_read ext_files (pickle_location [''/t/a.pickle'']) empty_fs =
       Inl (RuntimeError ''No such pickle file: /t/a.pickle'')"
proof -
  have h1: "read_pythonType ext_files (pythonType (pickle_location [''/t/a.pickle''])) = Inr (Some ''lsst.Obj'')"
    by (simp add: read_pythonType_def pickle_location_def ext_files_def)
  have h2: "\<not> self_reading ext_files (pickle_location [''/t/a.pickle''])"
    by (simp add: self_reading_def h1) (simp add: ext_files_def)
  have h3: "no_such (storageName (pickle_location [''/t/a.pickle''])) = Some ''No such pickle file: ''"
    by (simp add: no_such_def pickle_location_def)
  have h4: "locations (pickle_location [''/t/a.pickle'']) = [] @ ''/t/a.pickle'' # []"
    by (simp add: pickle_location_def)
  have h5: "\<forall>l'\<in>set []. \<exists>item.
           read_item ext_files (Some ''lsst.Obj'') (storageName (pickle_location [''/t/a.pickle'']))
             (additionalData (pickle_location [''/t/a.pickle''])) l' empty_fs = Inr item"
    by simp
  have h6: "\<not> path_exists (locString ext_files ''/t/a.pickle''
               (additionalData (pickle_location [''/t/a.pickle'']))) empty_fs"
    by (simp add: path_exists_def empty_fs_def ext_files_def plain_loc_def)
  show ?thesis
    using h1 h2 h3 h6 PosixStorage_read_not_found[OF h1 h2 h3 h4 h5 h6]
    by (simp add: ext_files_def plain_loc_def)
qed

lemma not_self_writing:
  assumes "\<not> self_writing ext bl" and "write_pythonType ext (pythonType bl) = Inr pt"
  shows "(case pt of None \<Rightarrow> None | Some c \<Rightarrow> butlerWrite_of ext c) = None"
  using assms by (auto simp add: self_writing_def split: option.splits)

lemma read_loop_fails:
  "l \<in> set ls \<Longrightarrow> read_item ext pt name ad l fs = Inl e \<Longrightarrow>
     \<exists>e'. read_loop ext pt name ad ls fs results = Inl e'"
proof (induction ls arbitrary: results)
  case Nil
  then show ?case by simp
next
  case (Cons x ls)
  show ?case
  proof (cases "read_item ext pt name ad x fs")
    case (Inl e1)
    then show ?thesis by simp
  next
    case (Inr item)
    then have "x \<noteq> l" using Cons.prems(2) by auto
    then have "l \<in> set ls" using Cons.prems(1) by simp
    then show ?thesis using Cons.IH Cons.prems(2) Inr by simp
  qed
qed

lemma write_body_plain:
  "plain_files ext \<Longrightarrow>
   write_body ext name ad obj locationString fs = write_file locationString (stored ext name obj) fs"
  by (auto simp add: plain_files_def write_body_def stored_def Let_def split: option.splits)

lemma write_plain:
  assumes "plain_files ext" and "\<not> self_writing ext bl" and "locations bl = l0 # rest"
    and "write_pythonType ext (pythonType bl) = Inr pt"
  shows "PosixStorage_write ext bl obj fs =
     (case write_file (l0 @ ''.tmp'') (stored ext (storageName bl) obj) fs of
        Inl e \<Rightarrow> Inl e
      | Inr fs1 \<Rightarrow> rename_file (l0 @ ''.tmp'') l0 fs1)"
proof -
  have cap: "(case pt of None \<Rightarrow> None | Some c \<Rightarrow> butlerWrite_of ext c) = None"
    using assms(2) assms(4) by (rule not_self_writing)
  have sf: "SafeFilename ext = SafeFilename_tmp" using assms(1) by (simp add: plain_files_def)
  have wb: "write_body ext (storageName bl) (additionalData bl) obj =
      (\<lambda>locationString fs. write_file locationString (stored ext (storageName bl) obj) fs)"
    by (intro ext) (rule write_body_plain[OF assms(1)])
  show ?thesis
    using assms(3) assms(4) cap
    by (simp add: PosixStorage_write_def sf wb SafeFilename_tmp_def)
qed

lemma tmp_rename:
  assumes "(case write_file (l0 @ ''.tmp'') s fs of
        Inl e \<Rightarrow> Inl e
      | Inr fs1 \<Rightarrow> rename_file (l0 @ ''.tmp'') l0 fs1) = Inr fs'"
  shows "files fs' l0 = Some s
    \<and> (\<forall>p. p \<noteq> l0 \<and> p \<noteq> l0 @ ''.tmp'' \<longrightarrow> files fs' p = files fs p)
    \<and> dirs fs' = dirs fs"
  using assms
  by (auto simp add: write_file_def rename_file_def split: if_splits sum.splits option.splits)

text \<open>
  Claim C10: for every ButlerLocation whose address list has more than one entry and
  whose target type has no self-serialization capability, write persists the object
  to the first entry of the address list only, while read iterates every entry and,
  when it returns, returns one object per entry; hence write followed by read does
  not round-trip.  For every storage, write does what it does for the one-entry
  location, and a read never returns just the object written.  For a file-backed
  storage, write is exactly the scoped write of the object to the first entry: when
  it returns, the file of the first entry holds the object and every other file is
  as before, so that, for a discriminator that requires the target to exist, the
  read that follows fails as soon as another entry had no file.
\<close>

theorem PosixStorage_write_first_location_only:
  assumes "\<not> self_writing ext butlerLocation"
    and "\<not> self_reading ext butlerLocation"
    and "1 < length (locations butlerLocation)"
  shows "PosixStorage_write ext butlerLocation obj fs =
           PosixStorage_write ext (butlerLocation\<lparr>locations := take 1 (locations butlerLocation)\<rparr>) obj fs
    \<and> (\<forall>objs. PosixStorage_read ext butlerLocation fsr = Inr objs \<longrightarrow>
           length objs = length (locations butlerLocation))
    \<and> PosixStorage_read ext butlerLocation fsr \<noteq> Inr [obj]
    \<and> (plain_files ext \<longrightarrow>
          PosixStorage_write ext butlerLocation obj fs =
            (case write_pythonType ext (pythonType butlerLocation) of
               Inl e \<Rightarrow> Inl e
             | Inr pt \<Rightarrow>
                 (case write_file (hd (locations butlerLocation) @ ''.tmp'')
                         (stored ext (storageName butlerLocation) obj) fs of
                    Inl e \<Rightarrow> Inl e
                  | Inr fs1 \<Rightarrow>
                      rename_file (hd (locations butlerLocation) @ ''.tmp'')
                        (hd (locations butlerLocation)) fs1)))
    \<and> (plain_files ext \<and> PosixStorage_write ext butlerLocation obj fs = Inr fs' \<longrightarrow>
          files fs' (hd (locations butlerLocation)) = Some (stored ext (storageName butlerLocation) obj)
          \<and> (\<forall>p. p \<noteq> hd (locations butlerLocation)
                 \<and> p \<noteq> hd (locations butlerLocation) @ ''.tmp'' \<longrightarrow> files fs' p = files fs p)
          \<and> dirs fs' = dirs fs)
    \<and> (plain_files ext \<and> PosixStorage_write ext butlerLocation obj fs = Inr fs'
         \<and> no_such (storageName butlerLocation) \<noteq> None
         \<and> (\<exists>l\<in>set (tl (locations butlerLocation)).
               l \<noteq> hd (locations butlerLocation)
               \<and> l \<noteq> hd (locations butlerLocation) @ ''.tmp'' \<and> \<not> path_exists l fs) \<longrightarrow>
          (\<exists>e. PosixStorage_read ext butlerLocation fs' = Inl e))"
proof -
  obtain l0 l1 rest where ls: "locations butlerLocation = l0 # l1 # rest"
    using assms(3) by (cases "locations butlerLocation"; cases "tl (locations butlerLocation)") auto
  have w: "PosixStorage_write ext butlerLocation obj fs =
           PosixStorage_write ext (butlerLocation\<lparr>locations := take 1 (locations butlerLocation)\<rparr>) obj fs"
  proof (cases "write_pythonType ext (pythonType butlerLocation)")
    case (Inl e)
    then show ?thesis by (simp add: PosixStorage_write_def)
  next
    case (Inr pt)
    have "(case pt of None \<Rightarrow> None | Some c \<Rightarrow> butlerWrite_of ext c) = None"
      using assms(1) Inr by (rule not_self_writing)
    then show ?thesis using Inr ls by (simp add: PosixStorage_write_def)
  qed
  have r: "\<And>objs. PosixStorage_read ext butlerLocation fsr = Inr objs \<Longrightarrow>
           length objs = length (locations butlerLocation)"
  proof -
    fix objs assume a: "PosixStorage_read ext butlerLocation fsr = Inr objs"
    then obtain pt where pt: "read_pythonType ext (pythonType butlerLocation) = Inr pt"
      by (cases "read_pythonType ext (pythonType butlerLocation)") (auto simp add: PosixStorage_read_def)
    have "(case pt of None \<Rightarrow> None | Some c \<Rightarrow> butlerRead_of ext c) = None"
      using assms(2) pt by (rule not_self_reading)
    then have "read_loop ext pt (storageName butlerLocation) (additionalData butlerLocation)
                 (locations butlerLocation) fsr [] = Inr objs"
      using a pt by (simp add: PosixStorage_read_def)
    then show "length objs = length (locations butlerLocation)"
      using read_loop_length by fastforce
  qed
  have r': "\<forall>objs. PosixStorage_read ext butlerLocation fsr = Inr objs \<longrightarrow>
           length objs = length (locations butlerLocation)"
    using r by blast
  have n: "PosixStorage_read ext butlerLocation fsr \<noteq> Inr [obj]"
    using r[of "[obj]"] assms(3) by auto
  let ?s = "stored ext (storageName butlerLocation) obj"
  let ?tmp = "l0 @ ''.tmp''"
  have eq: "plain_files ext \<Longrightarrow>
          PosixStorage_write ext butlerLocation obj fs =
            (case write_pythonType ext (pythonType butlerLocation) of
               Inl e \<Rightarrow> Inl e
             | Inr pt \<Rightarrow>
                 (case write_file ?tmp ?s fs of
                    Inl e \<Rightarrow> Inl e
                  | Inr fs1 \<Rightarrow> rename_file ?tmp l0 fs1))"
  proof -
    assume pf: "plain_files ext"
    show ?thesis
    proof (cases "write_pythonType ext (pythonType butlerLocation)")
      case (Inl e)
      then show ?thesis by (simp add: PosixStorage_write_def)
    next
      case (Inr pt)
      then show ?thesis using write_plain[OF pf assms(1) ls Inr, of obj fs] by simp
    qed
  qed
  have eff: "plain_files ext \<Longrightarrow> PosixStorage_write ext butlerLocation obj fs = Inr fs' \<Longrightarrow>
          files fs' l0 = Some ?s
          \<and> (\<forall>p. p \<noteq> l0 \<and> p \<noteq> ?tmp \<longrightarrow> files fs' p = files fs p)
          \<and> dirs fs' = dirs fs"
  proof -
    assume pf: "plain_files ext" and ok: "PosixStorage_write ext butlerLocation obj fs = Inr fs'"
    have "(case write_file ?tmp ?s fs of
                    Inl e \<Rightarrow> Inl e
                  | Inr fs1 \<Rightarrow> rename_file ?tmp l0 fs1) = Inr fs'"
      using eq[OF pf] ok by (auto split: sum.splits)
    then show ?thesis by (rule tmp_rename)
  qed
  have nrt: "plain_files ext \<Longrightarrow> PosixStorage_write ext butlerLocation obj fs = Inr fs' \<Longrightarrow>
         no_such (storageName butlerLocation) \<noteq> None \<Longrightarrow>
         (\<exists>l\<in>set (l1 # rest). l \<noteq> l0 \<and> l \<noteq> ?tmp \<and> \<not> path_exists l fs) \<Longrightarrow>
          (\<exists>e. PosixStorage_read ext butlerLocation fs' = Inl e)"
  proof -
    assume pf: "plain_files ext" and ok: "PosixStorage_write ext butlerLocation obj fs = Inr fs'"
      and ns: "no_such (storageName butlerLocation) \<noteq> None"
      and ex: "\<exists>l\<in>set (l1 # rest). l \<noteq> l0 \<and> l \<noteq> ?tmp \<and> \<not> path_exists l fs"
    obtain msg where msg: "no_such (storageName butlerLocation) = Some msg" using ns by auto
    obtain l where l: "l \<in> set (l1 # rest)" "l \<noteq> l0" "l \<noteq> ?tmp" "\<not> path_exists l fs"
      using ex by blast
    have e: "files fs' l = files fs l" "dirs fs' = dirs fs"
      using eff[OF pf ok] l by auto
    have loc: "locString ext l (additionalData butlerLocation) = l"
      using pf by (simp add: plain_files_def)
    have miss: "\<not> path_exists (locString ext l (additionalData butlerLocation)) fs'"
      using l(4) e loc by (simp add: path_exists_def)
    show ?thesis
    proof (cases "read_pythonType ext (pythonType butlerLocation)")
      case (Inl e)
      then show ?thesis by (simp add: PosixStorage_read_def)
    next
      case (Inr pt)
      have cap: "(case pt of None \<Rightarrow> None | Some c \<Rightarrow> butlerRead_of ext c) = None"
        using assms(2) Inr by (rule not_self_reading)
      have item: "read_item ext pt (storageName butlerLocation) (additionalData butlerLocation) l fs' =
          Inl (RuntimeError (msg @ locString ext l (additionalData butlerLocation)))"
        using msg miss by (rule read_item_missing)
      have "l \<in> set (locations butlerLocation)" using l(1) ls by simp
      then have "\<exists>e'. read_loop ext pt (storageName butlerLocation) (additionalData butlerLocation)
          (locations butlerLocation) fs' [] = Inl e'"
        using item by (rule read_loop_fails)
      then show ?thesis using Inr cap by (simp add: PosixStorage_read_def)
    qed
  qed
  have hd0: "hd (locations butlerLocation) = l0" using ls by simp
  have tl0: "tl (locations butlerLocation) = l1 # rest" using ls by simp
  have c4: "plain_files ext \<longrightarrow>
          PosixStorage_write ext butlerLocation obj fs =
            (case write_pythonType ext (pythonType butlerLocation) of
               Inl e \<Rightarrow> Inl e
             | Inr pt \<Rightarrow>
                 (case write_file (hd (locations butlerLocation) @ ''.tmp'')
                         (stored ext (storageName butlerLocation) obj) fs of
                    Inl e \<Rightarrow> Inl e
                  | Inr fs1 \<Rightarrow>
                      rename_file (hd (locations butlerLocation) @ ''.tmp'')
                        (hd (locations butlerLocation)) fs1))"
    unfolding hd0 using eq by blast
  have c5: "plain_files ext \<and> PosixStorage_write ext butlerLocation obj fs = Inr fs' \<longrightarrow>
          files fs' (hd (locations butlerLocation)) = Some (stored ext (storageName butlerLocation) obj)
          \<and> (\<forall>p. p \<noteq> hd (locations butlerLocation)
                 \<and> p \<noteq> hd (locations butlerLocation) @ ''.tmp'' \<longrightarrow> files fs' p = files fs p)
          \<and> dirs fs' = dirs fs"
    unfolding hd0 using eff by blast
  have c6: "plain_files ext \<and> PosixStorage_write ext butlerLocation obj fs = Inr fs'
         \<and> no_such (storageName butlerLocation) \<noteq> None
         \<and> (\<exists>l\<in>set (tl (locations butlerLocation)).
               l \<noteq> hd (locations butlerLocation)
               \<and> l \<noteq> hd (locations butlerLocation) @ ''.tmp'' \<and> \<not> path_exists l fs) \<longrightarrow>
          (\<exists>e. PosixStorage_read ext butlerLocation fs' = Inl e)"
    unfolding hd0 tl0 using nrt by blast
  show ?thesis
    by (intro conjI) (rule w r' n c4 c5 c6)+
qed

theorem PosixStorage_write_first_location_only_witness:
  "\<not> self_writing ext_files (pickle_location [''/t/a.pickle'', ''/t/b.pickle''])
   \<and> \<not> self_reading ext_files (pickle_location [''/t/a.pickle'', ''/t/b.pickle''])
   \<and> 1 < length (locations (pickle_location [''/t/a.pickle'', ''/t/b.pickle'']))
   \<and> plain_files ext_files
   \<and> no_such (storageName (pickle_location [''/t/a.pickle'', ''/t/b.pickle''])) \<noteq> None
   \<and> \<not> path_exists ''/t/b.pickle'' fs_T
   \<and> PosixStorage_write ext_files (pickle_location [''/t/a.pickle'', ''/t/b.pickle'']) cfg_doc fs_T =
       Inr fs_a
   \<and> PosixStorage_write ext_files (pickle_location [''/t/a.pickle'']) cfg_doc fs_T = Inr fs_a
   \<and> files fs_a ''/t/a.pickle'' = Some cfg_doc
   \<and> files fs_a ''/t/b.pickle'' = files fs_T ''/t/b.pickle''
   \<and> (\<exists>e. PosixStorage_read ext_files (pickle_location [''/t/a.pickle'', ''/t/b.pickle'']) fs_a =
          Inl e)
   \<and> PosixStorage_read ext_files (pickle_location [''/t/a.pickle'', ''/t/b.pickle'']) fs_a =
       Inl (RuntimeError ''No such pickle file: /t/b.pickle'')"
proof -
  let ?bl = "pickle_location [''/t/a.pickle'', ''/t/b.pickle'']"
  have h1: "\<not> self_writing ext_files ?bl"
    by (simp add: self_writing_def write_pythonType_def getModule_def pickle_location_def ext_files_def)
  have h2: "\<not> self_reading ext_files ?bl"
    by (simp add: self_reading_def read_pythonType_def pickle_location_def ext_files_def)
  have h3: "1 < length (locations ?bl)"
    by (simp add: pickle_location_def)
  have pl: "plain_loc = (\<lambda>location ad. location)"
    by (intro ext) (simp add: plain_loc_def)
  have hp: "plain_files ext_files"
    by (simp add: plain_files_def ext_files_def pl)
  have ns: "no_such (storageName ?bl) \<noteq> None"
    by (simp add: no_such_def pickle_location_def)
  have nb: "\<not> path_exists ''/t/b.pickle'' fs_T"
    by (simp add: path_exists_def fs_T_def)
  have d: "dirname ''/t/a.pickle.tmp'' = ''/t''"
    by (simp add: dirname_def)
  have w1: "PosixStorage_write ext_files (pickle_location [''/t/a.pickle'']) cfg_doc fs_T = Inr fs_a"
    by (simp add: PosixStorage_write_def write_pythonType_def getModule_def pickle_location_def
        ext_files_def SafeFilename_tmp_def write_body_def plain_loc_def write_file_def d
        rename_file_def fs_T_def fs_a_def)
  have rd: "PosixStorage_read ext_files ?bl fs_a =
       Inl (RuntimeError ''No such pickle file: /t/b.pickle'')"
    by (simp add: PosixStorage_read_def read_pythonType_def pickle_location_def ext_files_def
        read_item_def plain_loc_def path_exists_def read_file_def fs_a_def)
  have t1: "take 1 (locations ?bl) = [''/t/a.pickle'']"
    by (simp add: pickle_location_def)
  have same: "?bl\<lparr>locations := [''/t/a.pickle'']\<rparr> = pickle_location [''/t/a.pickle'']"
    by (simp add: pickle_location_def)
  have hd0: "hd (locations ?bl) = ''/t/a.pickle''" and tl0: "tl (locations ?bl) = [''/t/b.pickle'']"
    and st: "stored ext_files (storageName ?bl) cfg_doc = cfg_doc"
    by (simp_all add: pickle_location_def stored_def)
  note T = PosixStorage_write_first_location_only[OF h1 h2 h3,
      where obj = cfg_doc and fs = fs_T and fsr = fs_a and fs' = fs_a]
  have w2: "PosixStorage_write ext_files ?bl cfg_doc fs_T = Inr fs_a"
    using T[THEN conjunct1] w1 by (simp only: t1 same)
  have eff: "files fs_a ''/t/a.pickle'' = Some cfg_doc
      \<and> files fs_a ''/t/b.pickle'' = files fs_T ''/t/b.pickle''"
    using T[THEN conjunct2, THEN conjunct2, THEN conjunct2, THEN conjunct2, THEN conjunct1]
      hp w2 by (simp add: hd0 st)
  have fails: "\<exists>e. PosixStorage_read ext_files ?bl fs_a = Inl e"
    using T[THEN conjunct2, THEN conjunct2, THEN conjunct2, THEN conjunct2, THEN conjunct2]
      hp w2 ns nb by (simp add: hd0 tl0)
  show ?thesis
    by (intro conjI) (rule h1 h2 h3 hp ns nb w2 w1 eff[THEN conjunct1] eff[THEN conjunct2] fails rd)+
qed


end
